theory Spec2Isabelle
  imports Main
begin

unbundle bit_operations_syntax

section \<open>Command registry (src/commands/commands.c)\<close>

subsection \<open>Data\<close>

text \<open>
  A C function called through a pointer either returns to its caller or does not
  (abort, exit, longjmp, a crash). \<open>Returned\<close> carries the value it returns and the
  state it leaves behind, \<open>Faulted\<close> the state at the moment control was lost.
\<close>

datatype ('r, 's) outcome = Returned 'r 's | Faulted 's

text \<open>\<open>const char *argument\<close>: a string or NULL.\<close>

type_synonym argument = "string option"

text \<open>
  \<open>struct Command\<close>: the name, the three function pointers (each may be NULL) and the
  accelerator (a \<open>JAccel\<close>, NULL while no key is bound). \<open>'s\<close> is the application state the
  callables work on, \<open>'k\<close> the accelerator type of the widget library. The three
  callables are arbitrary C functions: each works on the state, may change it, and may
  fail to return; \<open>execute\<close> returns nothing, \<open>enabled\<close> and \<open>checked\<close> return a \<open>bool\<close>.
\<close>

record ('s, 'k) Command =
  name :: string
  execute :: "(argument \<Rightarrow> 's \<Rightarrow> (unit, 's) outcome) option"
  enabled :: "(argument \<Rightarrow> 's \<Rightarrow> (bool, 's) outcome) option"
  checked :: "(argument \<Rightarrow> 's \<Rightarrow> (bool, 's) outcome) option"
  accel :: "'k option"

text \<open>The fields of \<open>JMessage\<close> that the registry reads.\<close>

record JMessage =
  shifts :: int
  ascii :: int
  scancode :: int

text \<open>
  What \<open>command_execute\<close> does to the outside, in order: the console calls and the call
  through \<open>command->execute\<close>.
\<close>

datatype event = ConsoleOpen | Invoke argument | ConsoleClose

record 's world =
  trace :: "event list"
  app :: 's

definition console_open :: "'s world \<Rightarrow> 's world" where
  "console_open w = w\<lparr>trace := trace w @ [ConsoleOpen]\<rparr>"

definition console_close :: "'s world \<Rightarrow> 's world" where
  "console_close w = w\<lparr>trace := trace w @ [ConsoleClose]\<rparr>"

subsection \<open>Lookup\<close>

text \<open>
  The table \<open>commands[]\<close> is a NULL-terminated array of pointers to distinct static
  \<open>Command\<close> objects; it is modelled as the list of the commands in table order, the
  terminator being the end of the list. The position in the list is the identity of a
  command.

  \<open>for (cmd=commands; *cmd; cmd++) if (strcmp((*cmd)->name, name) == 0) return *cmd;\<close>
\<close>

fun get_by_name_loop :: "('s, 'k) Command list \<Rightarrow> string \<Rightarrow> ('s, 'k) Command option" where
  "get_by_name_loop [] n = None"
| "get_by_name_loop (c # cmds) n = (if name c = n then Some c else get_by_name_loop cmds n)"

definition command_get_by_name ::
  "('s, 'k) Command list \<Rightarrow> string option \<Rightarrow> ('s, 'k) Command option" where
  "command_get_by_name commands nm =
     (case nm of None \<Rightarrow> None | Some n \<Rightarrow> get_by_name_loop commands n)"

text \<open>
  \<open>command_is_key_pressed\<close>: FALSE without an accelerator, otherwise the answer of the
  library's \<open>jaccel_check\<close> (not part of this repository's sources: a parameter).
\<close>

definition command_is_key_pressed ::
  "('k \<Rightarrow> int \<Rightarrow> int \<Rightarrow> int \<Rightarrow> bool) \<Rightarrow> ('s, 'k) Command \<Rightarrow> JMessage \<Rightarrow> bool" where
  "command_is_key_pressed jaccel_check command msg =
     (case accel command of
        Some a \<Rightarrow> jaccel_check a (shifts msg) (ascii msg) (scancode msg)
      | None \<Rightarrow> False)"

fun command_get_by_key ::
  "('k \<Rightarrow> int \<Rightarrow> int \<Rightarrow> int \<Rightarrow> bool) \<Rightarrow> ('s, 'k) Command list \<Rightarrow> JMessage
     \<Rightarrow> ('s, 'k) Command option" where
  "command_get_by_key jaccel_check [] msg = None"
| "command_get_by_key jaccel_check (c # cmds) msg =
     (if command_is_key_pressed jaccel_check c msg then Some c
      else command_get_by_key jaccel_check cmds msg)"

subsection \<open>Guards and execution\<close>

text \<open>
  \<open>command_is_enabled\<close> and \<open>command_is_checked\<close>: the call through the function pointer
  when the command and the pointer are non-null, otherwise TRUE and FALSE.
\<close>

definition command_is_enabled ::
  "('s, 'k) Command option \<Rightarrow> argument \<Rightarrow> 's \<Rightarrow> (bool, 's) outcome" where
  "command_is_enabled command argument s =
     (case command of
        Some c \<Rightarrow> (case enabled c of Some p \<Rightarrow> p argument s | None \<Rightarrow> Returned True s)
      | None \<Rightarrow> Returned True s)"

definition command_is_checked ::
  "('s, 'k) Command option \<Rightarrow> argument \<Rightarrow> 's \<Rightarrow> (bool, 's) outcome" where
  "command_is_checked command argument s =
     (case command of
        Some c \<Rightarrow> (case checked c of Some p \<Rightarrow> p argument s | None \<Rightarrow> Returned False s)
      | None \<Rightarrow> Returned False s)"

text \<open>The call \<open>(*command->execute)(argument)\<close>, recorded in the trace.\<close>

definition invoke ::
  "(argument \<Rightarrow> 's \<Rightarrow> (unit, 's) outcome) \<Rightarrow> argument \<Rightarrow> 's world
     \<Rightarrow> (unit, 's world) outcome" where
  "invoke f argument w =
     (let w' = w\<lparr>trace := trace w @ [Invoke argument]\<rparr> in
      case f argument (app w') of
        Returned u s \<Rightarrow> Returned u (w'\<lparr>app := s\<rparr>)
      | Faulted s \<Rightarrow> Faulted (w'\<lparr>app := s\<rparr>))"

text \<open>
  The \<open>if\<close> statement of \<open>command_execute\<close>. Its condition
  \<open>command && command->execute && command_is_enabled(command, argument)\<close> is evaluated
  left to right: \<open>command_is_enabled\<close> is called only for a command with an
  execute-callable, and the callable is called when it returns true. When either call
  does not return, the statement does not complete.
\<close>

definition execute_if_enabled ::
  "('s, 'k) Command option \<Rightarrow> argument \<Rightarrow> 's world \<Rightarrow> (unit, 's world) outcome" where
  "execute_if_enabled command argument w =
     (case command of
        None \<Rightarrow> Returned () w
      | Some c \<Rightarrow>
          (case execute c of
             None \<Rightarrow> Returned () w
           | Some f \<Rightarrow>
               (case command_is_enabled command argument (app w) of
                  Faulted s \<Rightarrow> Faulted (w\<lparr>app := s\<rparr>)
                | Returned b s \<Rightarrow>
                    if b then invoke f argument (w\<lparr>app := s\<rparr>)
                    else Returned () (w\<lparr>app := s\<rparr>))))"

text \<open>
  \<open>console_open(); if (...) (*command->execute)(argument); console_close();\<close>
  Plain sequencing: when a call does not return, neither does \<open>command_execute\<close>, and the
  statement after the \<open>if\<close> is not reached.
\<close>

definition command_execute ::
  "('s, 'k) Command option \<Rightarrow> argument \<Rightarrow> 's world \<Rightarrow> (unit, 's world) outcome" where
  "command_execute command argument w =
     (case execute_if_enabled command argument (console_open w) of
        Returned u w2 \<Rightarrow> Returned () (console_close w2)
      | Faulted w2 \<Rightarrow> Faulted w2)"

subsection \<open>Accelerators\<close>

text \<open>
  \<open>command_reset_keys\<close>: every command with an accelerator has it freed and set to NULL.
\<close>

fun command_reset_keys :: "('s, 'k) Command list \<Rightarrow> ('s, 'k) Command list" where
  "command_reset_keys [] = []"
| "command_reset_keys (c # cmds) =
     (if accel c \<noteq> None then c\<lparr>accel := None\<rparr> else c) # command_reset_keys cmds"

section \<open>Tooltips (src/ui/tooltips.cpp)\<close>

subsection \<open>Geometry and the toolkit's interface\<close>

text \<open>
  \<open>gfx::Rect\<close>, \<open>gfx::Size\<close> and the four border widths of a widget; C++ \<open>int\<close> fields.
  Coordinates and sizes are integers without a bound: the arithmetic of the placement
  is additions and subtractions of screen coordinates, and signed overflow has no
  defined result in C++.
\<close>

record Rect =
  rect_x :: int
  rect_y :: int
  rect_w :: int
  rect_h :: int

record Size =
  size_w :: int
  size_h :: int

record Border =
  border_l :: int
  border_t :: int
  border_r :: int
  border_b :: int

text \<open>
  Modelled from the spec: the alignment flags \<open>JI_LEFT\<close>, \<open>JI_RIGHT\<close>, \<open>JI_TOP\<close> and
  \<open>JI_BOTTOM\<close> are declared in the toolkit's headers, outside the sources at hand. The spec
  describes the arrow alignment as an integer bitmask with one flag for each side; they
  are four distinct single bits.
\<close>

definition JI_LEFT :: int where "JI_LEFT = 0x0004"
definition JI_RIGHT :: int where "JI_RIGHT = 0x0010"
definition JI_TOP :: int where "JI_TOP = 0x0020"
definition JI_BOTTOM :: int where "JI_BOTTOM = 0x0080"

text \<open>
  Modelled from the spec: the macros \<open>MAX\<close> and \<open>MID\<close> come from a header outside the
  sources at hand. \<open>MID(lo, v, hi)\<close> is the clamp of step 2 of the placement algorithm,
  \<open>MAX(lo, MIN(v, hi))\<close>.
\<close>

definition MAX_macro :: "int \<Rightarrow> int \<Rightarrow> int" where
  "MAX_macro a b = (if a > b then a else b)"

definition MIN_macro :: "int \<Rightarrow> int \<Rightarrow> int" where
  "MIN_macro a b = (if a < b then a else b)"

definition MID :: "int \<Rightarrow> int \<Rightarrow> int \<Rightarrow> int" where
  "MID lo v hi = MAX_macro lo (MIN_macro v hi)"

text \<open>C++ division of an \<open>int\<close> by 2 truncates towards zero.\<close>

definition half :: "int \<Rightarrow> int" where
  "half n = (if n \<ge> 0 then n div 2 else - ((- n) div 2))"

text \<open>\<open>Widget*\<close>: an address; NULL is \<open>None\<close> where a pointer may be null.\<close>

type_synonym widget = nat

text \<open>
  \<open>TipWindow\<close>: the text and alignment of the window, \<open>m_arrowAlign\<close>, \<open>m_target\<close>, the
  bounds and border widths of the widget, the preferred sizes its children report
  (\<open>child->getPreferredSize()\<close>, in the order of \<open>getChildren()\<close>), and whether the window
  is open on the screen.
\<close>

record TipWindow =
  tw_text :: string
  tw_align :: int
  m_arrowAlign :: int
  tw_target :: Rect
  tw_bounds :: Rect
  border_width :: Border
  tw_children :: "Size list"
  tw_open :: bool

text \<open>
  What \<open>onTick\<close> asks of the toolkit and the display: the bounds of a widget, the mouse
  position, \<open>guiscale()\<close>, the display size, the size that the layout pass gives a tip
  window, and \<open>gfx::Rect::intersects\<close>. None of them is in the sources at hand; they are
  parameters.
\<close>

record Env =
  widget_bounds :: "widget \<Rightarrow> Rect"
  mouse_position :: "int \<times> int"
  guiscale :: int
  display_w :: int
  display_h :: int
  layout_size :: "TipWindow \<Rightarrow> Size"
  intersects :: "Rect \<Rightarrow> Rect \<Rightarrow> bool"

subsection \<open>TipWindow\<close>

text \<open>
  The constructor: the text, \<open>m_arrowAlign(0)\<close>, \<open>m_target(target)\<close>, and through
  \<open>initTheme()\<close> the border widths of \<open>onInitTheme\<close>. A new window has no children and
  is not open; its text alignment and its bounds before the first layout are the
  toolkit's defaults, taken as 0 and as the empty rectangle (no property below depends
  on them).
\<close>

definition TipWindow_new :: "int \<Rightarrow> string \<Rightarrow> Rect \<Rightarrow> TipWindow" where
  "TipWindow_new scale txt target =
     \<lparr>tw_text = txt, tw_align = 0, m_arrowAlign = 0, tw_target = target,
      tw_bounds = \<lparr>rect_x = 0, rect_y = 0, rect_w = 0, rect_h = 0\<rparr>,
      border_width = \<lparr>border_l = 6 * scale, border_t = 6 * scale,
                      border_r = 6 * scale, border_b = 7 * scale\<rparr>,
      tw_children = [], tw_open = False\<rparr>"

definition setArrowAlign :: "int \<Rightarrow> TipWindow \<Rightarrow> TipWindow" where
  "setArrowAlign arrowAlign tw = tw\<lparr>m_arrowAlign := arrowAlign\<rparr>"

text \<open>
  Modelled from the spec: \<open>remapWindow\<close>, \<open>positionWindow\<close> and \<open>openWindow\<close> belong to
  the window class of the toolkit, outside the sources at hand. The spec: the popup has
  a "natural size (w,h) computed from its text content and child widgets", and on success
  the engine is to "open the popup at the final (x,y)". Remapping gives the window the
  size of the layout pass at its current origin; positioning moves it to the origin given
  and keeps its size; opening shows it.
\<close>

definition remapWindow :: "Env \<Rightarrow> TipWindow \<Rightarrow> TipWindow" where
  "remapWindow env tw =
     tw\<lparr>tw_bounds := (tw_bounds tw)\<lparr>rect_w := size_w (layout_size env tw),
                                      rect_h := size_h (layout_size env tw)\<rparr>\<rparr>"

definition positionWindow :: "int \<Rightarrow> int \<Rightarrow> TipWindow \<Rightarrow> TipWindow" where
  "positionWindow px py tw = tw\<lparr>tw_bounds := (tw_bounds tw)\<lparr>rect_x := px, rect_y := py\<rparr>\<rparr>"

definition openWindow :: "TipWindow \<Rightarrow> TipWindow" where
  "openWindow tw = tw\<lparr>tw_open := True\<rparr>"

text \<open>
  \<open>TipWindow::onPreferredSize\<close>. \<open>fitString\<close> is the text measurement of the graphics
  context with the window's font set (a parameter); the width it is given is that of the
  client bounds less the border. The loop over the children keeps the largest width and
  the largest height, starting from \<open>Size(0, 0)\<close>.
\<close>

fun children_maxSize :: "Size \<Rightarrow> Size list \<Rightarrow> Size" where
  "children_maxSize maxSize [] = maxSize"
| "children_maxSize maxSize (reqSize # rest) =
     children_maxSize \<lparr>size_w = MAX_macro (size_w maxSize) (size_w reqSize),
                        size_h = MAX_macro (size_h maxSize) (size_h reqSize)\<rparr> rest"

definition client_width_less_border :: "TipWindow \<Rightarrow> int" where
  "client_width_less_border tw =
     rect_w (tw_bounds tw) - (border_l (border_width tw) + border_r (border_width tw))"

definition onPreferredSize :: "(string \<Rightarrow> int \<Rightarrow> int \<Rightarrow> Size) \<Rightarrow> TipWindow \<Rightarrow> Size" where
  "onPreferredSize fitString tw =
     (let bw = border_width tw;
          fit = fitString (tw_text tw) (client_width_less_border tw) (tw_align tw);
          resultSize = \<lparr>size_w = size_w fit + (border_l bw + border_r bw),
                        size_h = size_h fit + (border_t bw + border_b bw)\<rparr>
      in if tw_children tw \<noteq> [] then
           (let maxSize = children_maxSize \<lparr>size_w = 0, size_h = 0\<rparr> (tw_children tw)
            in \<lparr>size_w = MAX_macro (size_w resultSize) (border_l bw + size_w maxSize + border_r bw),
                size_h = size_h resultSize + size_h maxSize\<rparr>)
         else resultSize)"

subsection \<open>TooltipManager\<close>

record TipInfo =
  tip_text :: string
  arrowAlign :: int

record Target =
  widget :: "widget option"
  tipInfo :: TipInfo

text \<open>
  Modelled from the spec: the \<open>Timer\<close> class is outside the sources at hand. The spec: a
  single-shot delay timer with a fixed delay that is started, restarted and explicitly
  stopped; it is either running or not.
\<close>

record Timer =
  interval :: int
  running :: bool

definition timer_start :: "Timer \<Rightarrow> Timer" where
  "timer_start t = t\<lparr>running := True\<rparr>"

definition timer_stop :: "Timer \<Rightarrow> Timer" where
  "timer_stop t = t\<lparr>running := False\<rparr>"

definition kTooltipDelayMsecs :: int where
  "kTooltipDelayMsecs = 300"

text \<open>
  The members of \<open>TooltipManager\<close>: \<open>m_tips\<close> (a map from widgets to their tips),
  \<open>m_target\<close>, and the two owning pointers \<open>m_tipWindow\<close> and \<open>m_timer\<close>, null at first.
\<close>

record TooltipManager =
  m_tips :: "widget \<rightharpoonup> TipInfo"
  m_target :: Target
  m_tipWindow :: "TipWindow option"
  m_timer :: "Timer option"

definition addTooltipFor :: "widget \<Rightarrow> string \<Rightarrow> int \<Rightarrow> TooltipManager \<Rightarrow> TooltipManager" where
  "addTooltipFor wd txt al s = s\<lparr>m_tips := (m_tips s)(wd \<mapsto> \<lparr>tip_text = txt, arrowAlign = al\<rparr>)\<rparr>"

definition removeTooltipFor :: "widget \<Rightarrow> TooltipManager \<Rightarrow> TooltipManager" where
  "removeTooltipFor wd s = s\<lparr>m_tips := (m_tips s)(wd := None)\<rparr>"

datatype message_type =
  kMouseEnterMessage | kKeyDownMessage | kMouseDownMessage | kMouseLeaveMessage
  | kOtherMessage nat

record Message =
  msg_type :: message_type
  recipients :: "widget list"

text \<open>
  The body of the loop over the recipients of a mouse-enter message: a recipient with a
  tip becomes the target, the timer is created if there is none, and started.
\<close>

definition enter_widget :: "widget \<Rightarrow> TooltipManager \<Rightarrow> TooltipManager" where
  "enter_widget wd s =
     (case m_tips s wd of
        None \<Rightarrow> s
      | Some info \<Rightarrow>
          (let s1 = s\<lparr>m_target := \<lparr>widget = Some wd, tipInfo = info\<rparr>\<rparr>;
               t = (case m_timer s1 of
                      None \<Rightarrow> \<lparr>interval = kTooltipDelayMsecs, running = False\<rparr>
                    | Some t0 \<Rightarrow> t0)
           in s1\<lparr>m_timer := Some (timer_start t)\<rparr>))"

fun enter_widgets :: "widget list \<Rightarrow> TooltipManager \<Rightarrow> TooltipManager" where
  "enter_widgets [] s = s"
| "enter_widgets (wd # rest) s = enter_widgets rest (enter_widget wd s)"

text \<open>
  The branch for key-down, mouse-down and mouse-leave: the window, if any, is closed and
  destroyed (\<open>closeWindow(NULL)\<close>, \<open>reset()\<close>); the timer, if any, is stopped.
\<close>

definition dismiss :: "TooltipManager \<Rightarrow> TooltipManager" where
  "dismiss s =
     (let s1 = (if m_tipWindow s \<noteq> None then s\<lparr>m_tipWindow := None\<rparr> else s)
      in case m_timer s1 of
           Some t \<Rightarrow> s1\<lparr>m_timer := Some (timer_stop t)\<rparr>
         | None \<Rightarrow> s1)"

text \<open>
  \<open>TooltipManager::onProcessMessage\<close>. Every other message goes to
  \<open>Widget::onProcessMessage\<close> (a parameter).
\<close>

definition onProcessMessage ::
  "(Message \<Rightarrow> TooltipManager \<Rightarrow> bool \<times> TooltipManager) \<Rightarrow> Message \<Rightarrow> TooltipManager
     \<Rightarrow> bool \<times> TooltipManager" where
  "onProcessMessage Widget_onProcessMessage msg s =
     (case msg_type msg of
        kMouseEnterMessage \<Rightarrow> (False, enter_widgets (recipients msg) s)
      | kKeyDownMessage \<Rightarrow> (False, dismiss s)
      | kMouseDownMessage \<Rightarrow> (False, dismiss s)
      | kMouseLeaveMessage \<Rightarrow> (False, dismiss s)
      | kOtherMessage n \<Rightarrow> Widget_onProcessMessage msg s)"

subsection \<open>Placement\<close>

text \<open>
  The \<open>switch (arrowAlign)\<close> at the head of the loop body: the origin of the popup for
  each of the eight alignments; for any other value \<open>x\<close> and \<open>y\<close> keep what they hold.
\<close>

definition candidate :: "int \<Rightarrow> Rect \<Rightarrow> int \<Rightarrow> int \<Rightarrow> int \<times> int \<Rightarrow> int \<times> int" where
  "candidate al bounds w h xy =
     (if al = JI_TOP OR JI_LEFT then
        (rect_x bounds + rect_w bounds, rect_y bounds + rect_h bounds)
      else if al = JI_TOP OR JI_RIGHT then
        (rect_x bounds - w, rect_y bounds + rect_h bounds)
      else if al = JI_BOTTOM OR JI_LEFT then
        (rect_x bounds + rect_w bounds, rect_y bounds - h)
      else if al = JI_BOTTOM OR JI_RIGHT then
        (rect_x bounds - w, rect_y bounds - h)
      else if al = JI_TOP then
        (rect_x bounds + half (rect_w bounds) - half w, rect_y bounds + rect_h bounds)
      else if al = JI_BOTTOM then
        (rect_x bounds + half (rect_w bounds) - half w, rect_y bounds - h)
      else if al = JI_LEFT then
        (rect_x bounds + rect_w bounds, rect_y bounds + half (rect_h bounds) - half h)
      else if al = JI_RIGHT then
        (rect_x bounds - w, rect_y bounds + half (rect_h bounds) - half h)
      else xy)"

text \<open>"Switch position" (tries 0 and 2) and "Rotate positions" (try 1).\<close>

definition toggle :: "int \<Rightarrow> int \<Rightarrow> int" where
  "toggle bits al = (if al AND bits \<noteq> 0 then al XOR bits else al)"

definition switch_position :: "int \<Rightarrow> int" where
  "switch_position al = toggle (JI_LEFT OR JI_RIGHT) (toggle (JI_TOP OR JI_BOTTOM) al)"

definition rotate_positions :: "int \<Rightarrow> int" where
  "rotate_positions al = toggle (JI_BOTTOM OR JI_RIGHT) (toggle (JI_TOP OR JI_LEFT) al)"

definition next_align :: "nat \<Rightarrow> int \<Rightarrow> int" where
  "next_align trycount al =
     (if trycount = 0 \<or> trycount = 2 then switch_position al
      else if trycount = 1 then rotate_positions al
      else al)"

text \<open>The clamped rectangle that one pass of the loop tests against the target.\<close>

definition clamped :: "Env \<Rightarrow> int \<Rightarrow> Rect \<Rightarrow> int \<Rightarrow> int \<Rightarrow> int \<times> int \<Rightarrow> Rect" where
  "clamped env al bounds w h xy =
     \<lparr>rect_x = MID 0 (fst (candidate al bounds w h xy)) (display_w env - w),
      rect_y = MID 0 (snd (candidate al bounds w h xy)) (display_h env - h),
      rect_w = w, rect_h = h\<rparr>"

text \<open>
  \<open>for (; trycount < 4; ++trycount)\<close>: the loop returns the value of \<open>trycount\<close> on leaving
  (smaller than 4 after the \<open>break\<close>) and the window.
\<close>

function place_loop ::
  "Env \<Rightarrow> Rect \<Rightarrow> int \<Rightarrow> int \<Rightarrow> nat \<Rightarrow> int \<Rightarrow> int \<times> int \<Rightarrow> TipWindow \<Rightarrow> nat \<times> TipWindow" where
  "place_loop env bounds w h trycount al xy tw =
     (if trycount < 4 then
        (if intersects env bounds (clamped env al bounds w h xy)
         then place_loop env bounds w h (Suc trycount) (next_align trycount al)
                (rect_x (clamped env al bounds w h xy), rect_y (clamped env al bounds w h xy)) tw
         else (trycount,
               openWindow (positionWindow (rect_x (clamped env al bounds w h xy))
                                          (rect_y (clamped env al bounds w h xy))
                                          (setArrowAlign al tw))))
      else (trycount, tw))"
  by pat_completeness auto
termination
  by (relation "measure (\<lambda>(env, bounds, w, h, trycount, al, xy, tw). 4 - trycount)") auto

declare place_loop.simps [simp del]

subsection \<open>The timer tick\<close>

text \<open>
  Dereferencing a null \<open>m_target.widget\<close> or a null \<open>m_timer\<close> is the only way \<open>onTick\<close>
  can fail.
\<close>

datatype error = NullPointer

definition stop_timer :: "TooltipManager \<Rightarrow> error + TooltipManager" where
  "stop_timer s =
     (case m_timer s of
        None \<Rightarrow> Inl NullPointer
      | Some t \<Rightarrow> Inr (s\<lparr>m_timer := Some (timer_stop t)\<rparr>))"

definition onTick :: "Env \<Rightarrow> TooltipManager \<Rightarrow> error + TooltipManager" where
  "onTick env s =
     (case m_tipWindow s of
        Some tw \<Rightarrow> stop_timer s
      | None \<Rightarrow>
          (case widget (m_target s) of
             None \<Rightarrow> Inl NullPointer
           | Some wd \<Rightarrow>
               (let bounds = widget_bounds env wd;
                    tw0 = TipWindow_new (guiscale env) (tip_text (tipInfo (m_target s))) bounds;
                    xy = (fst (mouse_position env) + 12 * guiscale env,
                          snd (mouse_position env) + 12 * guiscale env);
                    tw1 = remapWindow env tw0;
                    w = rect_w (tw_bounds tw1);
                    h = rect_h (tw_bounds tw1);
                    (trycount, tw2) =
                       place_loop env bounds w h 0 (arrowAlign (tipInfo (m_target s))) xy tw1;
                    s1 = s\<lparr>m_tipWindow := Some tw2\<rparr>
                in if trycount = 4
                   then (case stop_timer (s1\<lparr>m_tipWindow := None\<rparr>) of
                           Inl e \<Rightarrow> Inl e
                         | Inr s2 \<Rightarrow> stop_timer s2)
                   else stop_timer s1)))"

text \<open>
  Modelled from the spec: the event loop that delivers the ticks is outside the sources
  at hand. The spec: the timer's "firing is just another message dispatched on the same
  loop", and a stopped timer does not fire "until explicitly restarted"; a tick reaches
  \<open>onTick\<close> only while the timer is running.
\<close>

definition timer_running :: "TooltipManager \<Rightarrow> bool" where
  "timer_running s = (case m_timer s of Some t \<Rightarrow> running t | None \<Rightarrow> False)"

definition fire_timer :: "Env \<Rightarrow> TooltipManager \<Rightarrow> error + TooltipManager" where
  "fire_timer env s = (if timer_running s then onTick env s else Inr s)"

section \<open>Notions of the specification\<close>

text \<open>
  The three states of the tooltip engine, read off the manager: Shown while a tip window
  exists, Pending while none exists and the timer runs, Idle otherwise.
\<close>

datatype engine_state = Idle | Pending | Shown

definition state_of :: "TooltipManager \<Rightarrow> engine_state" where
  "state_of s =
     (if m_tipWindow s \<noteq> None then Shown else if timer_running s then Pending else Idle)"

text \<open>A rectangle lies fully within \<open>[0, display_width] \<times> [0, display_height]\<close>.\<close>

definition within_display :: "Env \<Rightarrow> Rect \<Rightarrow> bool" where
  "within_display env r =
     (0 \<le> rect_x r \<and> rect_x r + rect_w r \<le> display_w env \<and>
      0 \<le> rect_y r \<and> rect_y r + rect_h r \<le> display_h env)"

text \<open>
  The search order of the specification: attempt 0 uses the original alignment, attempt
  1 the switched one, attempt 2 the rotated one, attempt 3 the switched one again; each
  attempt clamps its candidate, starting from the origin the attempt before it left.
\<close>

fun spec_attempt_align :: "nat \<Rightarrow> int \<Rightarrow> int" where
  "spec_attempt_align 0 al = al"
| "spec_attempt_align (Suc k) al = next_align k (spec_attempt_align k al)"

fun spec_attempt_rect ::
  "Env \<Rightarrow> Rect \<Rightarrow> int \<Rightarrow> int \<Rightarrow> int \<Rightarrow> int \<times> int \<Rightarrow> nat \<Rightarrow> Rect" where
  "spec_attempt_rect env bounds w h al xy 0 = clamped env al bounds w h xy"
| "spec_attempt_rect env bounds w h al xy (Suc k) =
     clamped env (spec_attempt_align (Suc k) al) bounds w h
       (rect_x (spec_attempt_rect env bounds w h al xy k),
        rect_y (spec_attempt_rect env bounds w h al xy k))"

text \<open>
  The attempts of one tick for the target widget \<open>wd\<close>: the size is that of the new,
  remapped tip window, the alignment that of the target's tip, the first origin the mouse
  position plus \<open>12 * guiscale()\<close>.
\<close>

definition tick_window :: "Env \<Rightarrow> TooltipManager \<Rightarrow> widget \<Rightarrow> TipWindow" where
  "tick_window env s wd =
     remapWindow env
       (TipWindow_new (guiscale env) (tip_text (tipInfo (m_target s))) (widget_bounds env wd))"

definition tick_attempt :: "Env \<Rightarrow> TooltipManager \<Rightarrow> widget \<Rightarrow> nat \<Rightarrow> Rect" where
  "tick_attempt env s wd k =
     spec_attempt_rect env (widget_bounds env wd)
       (rect_w (tw_bounds (tick_window env s wd))) (rect_h (tw_bounds (tick_window env s wd)))
       (arrowAlign (tipInfo (m_target s)))
       (fst (mouse_position env) + 12 * guiscale env, snd (mouse_position env) + 12 * guiscale env)
       k"

definition tick_collides :: "Env \<Rightarrow> TooltipManager \<Rightarrow> widget \<Rightarrow> nat \<Rightarrow> bool" where
  "tick_collides env s wd k = intersects env (widget_bounds env wd) (tick_attempt env s wd k)"

definition tick_placed :: "Env \<Rightarrow> TooltipManager \<Rightarrow> widget \<Rightarrow> nat \<Rightarrow> TipWindow" where
  "tick_placed env s wd k =
     openWindow
       (positionWindow (rect_x (tick_attempt env s wd k)) (rect_y (tick_attempt env s wd k))
          (setArrowAlign (spec_attempt_align k (arrowAlign (tipInfo (m_target s))))
             (tick_window env s wd)))"

text \<open>
  The origin an attempt starts from: the mouse position plus \<open>12 * guiscale()\<close> for the
  first, the origin of the rectangle tested before for the others.
\<close>

definition tick_origin :: "Env \<Rightarrow> TooltipManager \<Rightarrow> widget \<Rightarrow> nat \<Rightarrow> int \<times> int" where
  "tick_origin env s wd k =
     (if k = 0 then
        (fst (mouse_position env) + 12 * guiscale env, snd (mouse_position env) + 12 * guiscale env)
      else (rect_x (tick_attempt env s wd (k - 1)), rect_y (tick_attempt env s wd (k - 1))))"

text \<open>
  The eight arrow alignments, and the search order written out for each of them: the
  alignment of attempts 0, 1, 2 and 3. Attempt 1 has both axes flipped. For the four
  sides, attempts 2 and 3 are the two sides of the other axis. The entry 0 is no
  alignment: no candidate is computed for it, and the attempt tests the rectangle of the
  attempt before it once more.
\<close>

definition arrow_alignments :: "int list" where
  "arrow_alignments =
     [JI_TOP OR JI_LEFT, JI_TOP OR JI_RIGHT, JI_BOTTOM OR JI_LEFT, JI_BOTTOM OR JI_RIGHT,
      JI_TOP, JI_BOTTOM, JI_LEFT, JI_RIGHT]"

definition alternate_sequence :: "int \<Rightarrow> int list" where
  "alternate_sequence al =
     (if al = JI_TOP then [JI_TOP, JI_BOTTOM, JI_RIGHT, JI_LEFT]
      else if al = JI_BOTTOM then [JI_BOTTOM, JI_TOP, JI_LEFT, JI_RIGHT]
      else if al = JI_LEFT then [JI_LEFT, JI_RIGHT, JI_BOTTOM, JI_TOP]
      else if al = JI_RIGHT then [JI_RIGHT, JI_LEFT, JI_TOP, JI_BOTTOM]
      else if al = JI_TOP OR JI_LEFT then [JI_TOP OR JI_LEFT, JI_BOTTOM OR JI_RIGHT, 0, 0]
      else if al = JI_BOTTOM OR JI_RIGHT then [JI_BOTTOM OR JI_RIGHT, JI_TOP OR JI_LEFT, 0, 0]
      else if al = JI_TOP OR JI_RIGHT then
        [JI_TOP OR JI_RIGHT, JI_BOTTOM OR JI_LEFT, JI_TOP OR JI_RIGHT, JI_BOTTOM OR JI_LEFT]
      else if al = JI_BOTTOM OR JI_LEFT then
        [JI_BOTTOM OR JI_LEFT, JI_TOP OR JI_RIGHT, JI_BOTTOM OR JI_LEFT, JI_TOP OR JI_RIGHT]
      else [])"

text \<open>
  \<open>is_enabled(command, argument)\<close> holds: the call returns true. Every callback that
  \<open>command_execute\<close> calls returns: the enabled-predicate when it is asked, and the
  callable when it is invoked.
\<close>

definition enabled_holds :: "('s, 'k) Command option \<Rightarrow> argument \<Rightarrow> 's \<Rightarrow> bool" where
  "enabled_holds command argument s =
     (case command_is_enabled command argument s of Returned b s' \<Rightarrow> b | Faulted s' \<Rightarrow> False)"

definition callbacks_return :: "('s, 'k) Command option \<Rightarrow> argument \<Rightarrow> 's \<Rightarrow> bool" where
  "callbacks_return command argument s =
     (case command of
        None \<Rightarrow> True
      | Some c \<Rightarrow>
          (case execute c of
             None \<Rightarrow> True
           | Some f \<Rightarrow>
               (case command_is_enabled command argument s of
                  Faulted s' \<Rightarrow> False
                | Returned b s' \<Rightarrow>
                    if b then (case f argument s' of Returned u s'' \<Rightarrow> True | Faulted s'' \<Rightarrow> False)
                    else True)))"

text \<open>
  The preferred size as the specification words it: the width is the larger of the text
  width and the children's largest width, plus the horizontal borders; the height is the
  text height, plus the vertical borders, plus the sum of the children's heights.
\<close>

definition spec_preferred_size :: "(string \<Rightarrow> int \<Rightarrow> int \<Rightarrow> Size) \<Rightarrow> TipWindow \<Rightarrow> Size" where
  "spec_preferred_size fitString tw =
     (let bw = border_width tw;
          fit = fitString (tw_text tw) (client_width_less_border tw) (tw_align tw)
      in \<lparr>size_w = Max (set (size_w fit # map size_w (tw_children tw))) + (border_l bw + border_r bw),
          size_h = size_h fit + (border_t bw + border_b bw) + sum_list (map size_h (tw_children tw))\<rparr>)"

section \<open>Example data\<close>

text \<open>
  A small registry over an undo depth as application state. Accelerators are lists of
  chords (shifts, ascii, scancode), and a chord list matches an event that it contains.
  \<open>example_exit\<close> stands for a command whose callable does not return, \<open>example_stuck\<close>
  for one whose enabled-predicate does not return.
\<close>

type_synonym example_accel = "(int \<times> int \<times> int) list"

definition example_jaccel_check :: "example_accel \<Rightarrow> int \<Rightarrow> int \<Rightarrow> int \<Rightarrow> bool" where
  "example_jaccel_check a k1 k2 k3 = ((k1, k2, k3) \<in> set a)"

definition example_undo :: "(nat, example_accel) Command" where
  "example_undo =
     \<lparr>name = ''undo'', execute = Some (\<lambda>a s. Returned () (s - 1)),
      enabled = Some (\<lambda>a s. Returned (0 < s) s), checked = None,
      accel = Some [(2, 26, 26)]\<rparr>"

definition example_redo :: "(nat, example_accel) Command" where
  "example_redo =
     \<lparr>name = ''redo'', execute = Some (\<lambda>a s. Returned () (Suc s)),
      enabled = None, checked = None, accel = Some [(2, 26, 26), (2, 25, 25)]\<rparr>"

definition example_exit :: "(nat, example_accel) Command" where
  "example_exit =
     \<lparr>name = ''exit'', execute = Some (\<lambda>a s. Faulted s),
      enabled = None, checked = None, accel = None\<rparr>"

definition example_stuck :: "(nat, example_accel) Command" where
  "example_stuck =
     \<lparr>name = ''stuck'', execute = Some (\<lambda>a s. Returned () (Suc s)),
      enabled = Some (\<lambda>a s. Faulted s), checked = None, accel = None\<rparr>"

definition example_registry :: "(nat, example_accel) Command list" where
  "example_registry = [example_undo, example_redo, example_exit]"

definition example_key :: JMessage where
  "example_key = \<lparr>shifts = 2, ascii = 26, scancode = 26\<rparr>"

text \<open>
  A display of 800 by 600 with two widgets that have tips, 7 and 8; the bounds of
  widget 7 and the size the layout gives a tip window vary with the example.
  \<open>overlap\<close> is the intersection test used for \<open>intersects\<close>: two non-empty rectangles
  share a point.
\<close>

definition overlap :: "Rect \<Rightarrow> Rect \<Rightarrow> bool" where
  "overlap a rc =
     (\<not> (rect_w a < 1 \<or> rect_h a < 1) \<and> \<not> (rect_w rc < 1 \<or> rect_h rc < 1) \<and>
      rect_x rc < rect_x a + rect_w a \<and> rect_x rc + rect_w rc > rect_x a \<and>
      rect_y rc < rect_y a + rect_h a \<and> rect_y rc + rect_h rc > rect_y a)"

definition example_target :: Rect where
  "example_target = \<lparr>rect_x = 100, rect_y = 100, rect_w = 50, rect_h = 20\<rparr>"

definition example_other_target :: Rect where
  "example_other_target = \<lparr>rect_x = 200, rect_y = 100, rect_w = 50, rect_h = 20\<rparr>"

definition example_whole_display :: Rect where
  "example_whole_display = \<lparr>rect_x = 0, rect_y = 0, rect_w = 800, rect_h = 600\<rparr>"

definition example_env :: "Rect \<Rightarrow> int \<times> int \<Rightarrow> Env" where
  "example_env target sz =
     \<lparr>widget_bounds = (\<lambda>wd. if wd = 8 then example_other_target else target),
      mouse_position = (120, 105), guiscale = 1,
      display_w = 800, display_h = 600,
      layout_size = (\<lambda>tw. \<lparr>size_w = fst sz, size_h = snd sz\<rparr>),
      intersects = overlap\<rparr>"

definition example_undo_tip :: TipInfo where
  "example_undo_tip = \<lparr>tip_text = ''Undo'', arrowAlign = JI_BOTTOM OR JI_RIGHT\<rparr>"

definition example_redo_tip :: TipInfo where
  "example_redo_tip = \<lparr>tip_text = ''Redo'', arrowAlign = JI_TOP\<rparr>"

definition example_running :: Timer where
  "example_running = \<lparr>interval = 300, running = True\<rparr>"

definition example_stopped :: Timer where
  "example_stopped = \<lparr>interval = 300, running = False\<rparr>"

definition example_pending :: TooltipManager where
  "example_pending =
     \<lparr>m_tips = [7 \<mapsto> example_undo_tip, 8 \<mapsto> example_redo_tip],
      m_target = \<lparr>widget = Some 7, tipInfo = example_undo_tip\<rparr>,
      m_tipWindow = None,
      m_timer = Some example_running\<rparr>"

definition example_popup :: "string \<Rightarrow> int \<Rightarrow> Rect \<Rightarrow> Rect \<Rightarrow> TipWindow" where
  "example_popup txt al target bounds =
     \<lparr>tw_text = txt, tw_align = 0, m_arrowAlign = al, tw_target = target, tw_bounds = bounds,
      border_width = \<lparr>border_l = 6, border_t = 6, border_r = 6, border_b = 7\<rparr>,
      tw_children = [], tw_open = True\<rparr>"

definition example_undo_popup :: TipWindow where
  "example_undo_popup =
     example_popup ''Undo'' (JI_BOTTOM OR JI_RIGHT) example_target
       \<lparr>rect_x = 40, rect_y = 70, rect_w = 60, rect_h = 30\<rparr>"

definition example_shown :: TooltipManager where
  "example_shown =
     example_pending\<lparr>m_tipWindow := Some example_undo_popup, m_timer := Some example_stopped\<rparr>"

text \<open>
  A target that leaves room only at the right edge of the display, with a tip whose
  arrow is at the top; and a tip with the arrow at the top left.
\<close>

definition example_column :: Rect where
  "example_column = \<lparr>rect_x = 0, rect_y = 0, rect_w = 700, rect_h = 600\<rparr>"

definition example_top_tip :: TipInfo where
  "example_top_tip = \<lparr>tip_text = ''Undo'', arrowAlign = JI_TOP\<rparr>"

definition example_pending_top :: TooltipManager where
  "example_pending_top =
     \<lparr>m_tips = [7 \<mapsto> example_top_tip],
      m_target = \<lparr>widget = Some 7, tipInfo = example_top_tip\<rparr>,
      m_tipWindow = None,
      m_timer = Some example_running\<rparr>"

definition example_corner_tip :: TipInfo where
  "example_corner_tip = \<lparr>tip_text = ''Undo'', arrowAlign = JI_TOP OR JI_LEFT\<rparr>"

definition example_pending_corner :: TooltipManager where
  "example_pending_corner =
     \<lparr>m_tips = [7 \<mapsto> example_corner_tip],
      m_target = \<lparr>widget = Some 7, tipInfo = example_corner_tip\<rparr>,
      m_tipWindow = None,
      m_timer = Some example_running\<rparr>"

definition example_base :: "Message \<Rightarrow> TooltipManager \<Rightarrow> bool \<times> TooltipManager" where
  "example_base msg s = (False, s)"

definition example_enter_redo :: Message where
  "example_enter_redo = \<lparr>msg_type = kMouseEnterMessage, recipients = [8]\<rparr>"

definition example_key_down :: Message where
  "example_key_down = \<lparr>msg_type = kKeyDownMessage, recipients = [7]\<rparr>"

text \<open>
  Text measured at 8 by 8 pixels for each character, and a tip window with two children.
\<close>

definition example_fitString :: "string \<Rightarrow> int \<Rightarrow> int \<Rightarrow> Size" where
  "example_fitString txt width al = \<lparr>size_w = 8 * int (length txt), size_h = 8\<rparr>"

definition example_tip_with_children :: TipWindow where
  "example_tip_with_children =
     (TipWindow_new 1 ''Undo'' example_target)
       \<lparr>tw_children := [\<lparr>size_w = 40, size_h = 10\<rparr>, \<lparr>size_w = 30, size_h = 20\<rparr>]\<rparr>"

section \<open>Properties of the command registry\<close>

subsection \<open>Execution\<close>

lemmas example_command_defs =
  example_undo_def example_redo_def example_exit_def example_registry_def example_key_def
  example_jaccel_check_def

lemmas execute_defs =
  command_execute_def execute_if_enabled_def command_is_enabled_def callbacks_return_def
  enabled_holds_def console_open_def console_close_def invoke_def

text \<open>
  Claim C1, as the code has it. For every command and every argument,
  \<open>command_execute\<close> opens the console first and invokes the callable exactly when the
  command is non-null, has an execute-callable and \<open>command_is_enabled\<close> returns true.
  When every callback it calls returns (the enabled-predicate, the callable), or none is
  called, it returns with the console closed last: one open and one close for the call,
  also when the callable is skipped. When a callback does not return, neither does
  \<open>command_execute\<close>, and the console is left opened and not closed: the code has no
  cleanup for that path.
\<close>

theorem command_execute_brackets_console:
  "\<exists>w'. trace w' = trace w @ [ConsoleOpen]
            @ (if (\<exists>c. command = Some c \<and> execute c \<noteq> None)
                    \<and> enabled_holds command argument (app w)
               then [Invoke argument] else [])
            @ (if callbacks_return command argument (app w) then [ConsoleClose] else [])
        \<and> command_execute command argument w
             = (if callbacks_return command argument (app w) then Returned () w' else Faulted w')"
proof (cases command)
  case None
  then show ?thesis by (simp add: execute_defs)
next
  case (Some c)
  show ?thesis
  proof (cases "execute c")
    case None
    with Some show ?thesis by (simp add: execute_defs)
  next
    case f: (Some f)
    show ?thesis
    proof (cases "command_is_enabled (Some c) argument (app w)")
      case (Faulted s1)
      with Some f show ?thesis
        by (simp add: command_execute_def execute_if_enabled_def callbacks_return_def
              enabled_holds_def console_open_def)
    next
      case (Returned b s1)
      show ?thesis
      proof (cases b)
        case False
        with Some f Returned show ?thesis
          by (simp add: command_execute_def execute_if_enabled_def callbacks_return_def
                enabled_holds_def console_open_def console_close_def)
      next
        case True
        show ?thesis
        proof (cases "f argument s1")
          case r: (Returned u s2)
          with Some f Returned True show ?thesis
            by (simp add: command_execute_def execute_if_enabled_def callbacks_return_def
                  enabled_holds_def console_open_def console_close_def invoke_def)
        next
          case r: (Faulted s2)
          with Some f Returned True show ?thesis
            by (simp add: command_execute_def execute_if_enabled_def callbacks_return_def
                  enabled_holds_def console_open_def console_close_def invoke_def)
        qed
      qed
    qed
  qed
qed

text \<open>
  An enabled command (undo depth 1) and the same command disabled (undo depth 0): the
  console is opened and closed once in both runs, the callable is invoked in the first
  only.
\<close>

theorem command_execute_brackets_console_witness:
  "callbacks_return (Some example_undo) (Some ''x'') (app \<lparr>trace = [], app = 1\<rparr>)
   \<and> enabled_holds (Some example_undo) (Some ''x'') (app \<lparr>trace = [], app = 1\<rparr>)
   \<and> command_execute (Some example_undo) (Some ''x'') \<lparr>trace = [], app = 1\<rparr>
       = Returned () \<lparr>trace = [ConsoleOpen, Invoke (Some ''x''), ConsoleClose], app = 0\<rparr>
   \<and> callbacks_return (Some example_undo) (Some ''x'') (app \<lparr>trace = [], app = 0\<rparr>)
   \<and> \<not> enabled_holds (Some example_undo) (Some ''x'') (app \<lparr>trace = [], app = 0\<rparr>)
   \<and> command_execute (Some example_undo) (Some ''x'') \<lparr>trace = [], app = 0\<rparr>
       = Returned () \<lparr>trace = [ConsoleOpen, ConsoleClose], app = 0\<rparr>"
  using command_execute_brackets_console
          [of "\<lparr>trace = [], app = 1\<rparr>" "Some example_undo" "Some ''x''"]
        command_execute_brackets_console
          [of "\<lparr>trace = [], app = 0\<rparr>" "Some example_undo" "Some ''x''"]
  by (simp add: execute_defs example_undo_def)

text \<open>
  A callable that does not return, and an enabled-predicate that does not return: the
  console has been opened and is not closed, and \<open>command_execute\<close> does not return
  either.
\<close>

theorem command_execute_fault_leaves_console_open:
  "command_execute (Some example_exit) None \<lparr>trace = [], app = 0\<rparr>
     = Faulted \<lparr>trace = [ConsoleOpen, Invoke None], app = 0\<rparr>
   \<and> count_list [ConsoleOpen, Invoke None] ConsoleClose = 0
   \<and> command_execute (Some example_stuck) None \<lparr>trace = [], app = 0\<rparr>
     = Faulted \<lparr>trace = [ConsoleOpen], app = 0\<rparr>"
  by (simp add: execute_defs example_exit_def example_stuck_def)

subsection \<open>Lookup by name\<close>

lemma get_by_name_loop_member:
  "distinct (map name cmds) \<Longrightarrow> c \<in> set cmds \<Longrightarrow> get_by_name_loop cmds (name c) = Some c"
  by (induction cmds) (auto simp: image_iff)

lemma get_by_name_loop_absent:
  "n \<notin> name ` set cmds \<Longrightarrow> get_by_name_loop cmds n = None"
  by (induction cmds) auto

text \<open>
  Claim C5. In a registry whose commands have pairwise different names (the invariant of
  the data model), \<open>command_get_by_name\<close> returns exactly \<open>c\<close> for the name of every
  registered command \<open>c\<close>, and not-found (\<open>None\<close>) for every string that is no registered
  name and for the null input. The function is total: not-found is a value it returns.
\<close>

theorem command_get_by_name_roundtrip:
  assumes "distinct (map name commands)"
  shows "(\<forall>c \<in> set commands. command_get_by_name commands (Some (name c)) = Some c)
       \<and> (\<forall>n. n \<notin> name ` set commands \<longrightarrow> command_get_by_name commands (Some n) = None)
       \<and> command_get_by_name commands None = None"
  using assms
  by (simp add: command_get_by_name_def get_by_name_loop_member get_by_name_loop_absent)

theorem command_get_by_name_roundtrip_witness:
  "distinct (map name example_registry)
   \<and> example_redo \<in> set example_registry
   \<and> command_get_by_name example_registry (Some (name example_redo)) = Some example_redo
   \<and> ''save'' \<notin> name ` set example_registry
   \<and> command_get_by_name example_registry (Some ''save'') = None
   \<and> command_get_by_name example_registry None = None"
proof -
  have d: "distinct (map name example_registry)"
    by (simp add: example_command_defs)
  have m: "example_redo \<in> set example_registry" and n: "''save'' \<notin> name ` set example_registry"
    by (simp_all add: example_command_defs)
  from command_get_by_name_roundtrip[OF d] d m n show ?thesis by blast
qed

subsection \<open>Lookup by key\<close>

lemma get_by_key_first:
  "j < length cmds \<Longrightarrow> command_is_key_pressed chk (cmds ! j) msg \<Longrightarrow>
   \<exists>k\<le>j. command_get_by_key chk cmds msg = Some (cmds ! k)
        \<and> command_is_key_pressed chk (cmds ! k) msg
        \<and> (\<forall>m<k. \<not> command_is_key_pressed chk (cmds ! m) msg)"
proof (induction cmds arbitrary: j)
  case Nil
  then show ?case by simp
next
  case (Cons c cmds)
  show ?case
  proof (cases "command_is_key_pressed chk c msg")
    case True
    then have "command_get_by_key chk (c # cmds) msg = Some ((c # cmds) ! 0)
        \<and> command_is_key_pressed chk ((c # cmds) ! 0) msg
        \<and> (\<forall>m<0::nat. \<not> command_is_key_pressed chk ((c # cmds) ! m) msg)" by simp
    then show ?thesis by blast
  next
    case False
    with Cons.prems obtain j' where j': "j = Suc j'" by (cases j) auto
    with Cons.prems have "j' < length cmds" "command_is_key_pressed chk (cmds ! j') msg" by auto
    from Cons.IH[OF this] obtain k where k: "k \<le> j'"
      "command_get_by_key chk cmds msg = Some (cmds ! k)"
      "command_is_key_pressed chk (cmds ! k) msg"
      "\<forall>m<k. \<not> command_is_key_pressed chk (cmds ! m) msg" by blast
    have "\<forall>m<Suc k. \<not> command_is_key_pressed chk ((c # cmds) ! m) msg"
      using False k(4) by (auto simp: less_Suc_eq_0_disj)
    with k False j' have "Suc k \<le> j
        \<and> command_get_by_key chk (c # cmds) msg = Some ((c # cmds) ! Suc k)
        \<and> command_is_key_pressed chk ((c # cmds) ! Suc k) msg
        \<and> (\<forall>m<Suc k. \<not> command_is_key_pressed chk ((c # cmds) ! m) msg)" by simp
    then show ?thesis by blast
  qed
qed

text \<open>
  Claim C6. \<open>command_get_by_key\<close> scans the table in declaration order: when the event
  matches the accelerators of the commands at positions \<open>i < j\<close>, the command returned
  stands at a position \<open>k \<le> i\<close>, matches the event, and no command before it does; it is
  the command at \<open>i\<close> itself when nothing before \<open>i\<close> matches. The later command \<open>j\<close> never
  wins over the earlier one.
\<close>

theorem command_get_by_key_first_wins:
  assumes "i < j" and "j < length commands"
      and "command_is_key_pressed chk (commands ! i) msg"
      and "command_is_key_pressed chk (commands ! j) msg"
  shows "\<exists>k\<le>i. command_get_by_key chk commands msg = Some (commands ! k)
           \<and> command_is_key_pressed chk (commands ! k) msg
           \<and> (\<forall>m<k. \<not> command_is_key_pressed chk (commands ! m) msg)
           \<and> ((\<forall>m<i. \<not> command_is_key_pressed chk (commands ! m) msg) \<longrightarrow> k = i)"
proof -
  from assms have "i < length commands" by simp
  from get_by_key_first[OF this assms(3)] obtain k where k: "k \<le> i"
    "command_get_by_key chk commands msg = Some (commands ! k)"
    "command_is_key_pressed chk (commands ! k) msg"
    "\<forall>m<k. \<not> command_is_key_pressed chk (commands ! m) msg" by blast
  have "(\<forall>m<i. \<not> command_is_key_pressed chk (commands ! m) msg) \<longrightarrow> k = i"
    using k(1,3) by (auto simp: le_less)
  with k show ?thesis by blast
qed

theorem command_get_by_key_first_wins_witness:
  "(0::nat) < 1 \<and> 1 < length example_registry
   \<and> command_is_key_pressed example_jaccel_check (example_registry ! 0) example_key
   \<and> command_is_key_pressed example_jaccel_check (example_registry ! 1) example_key
   \<and> command_get_by_key example_jaccel_check example_registry example_key
       = Some (example_registry ! 0)"
proof -
  have h: "(0::nat) < 1" "1 < length example_registry"
    "command_is_key_pressed example_jaccel_check (example_registry ! 0) example_key"
    "command_is_key_pressed example_jaccel_check (example_registry ! 1) example_key"
    by (simp_all add: example_command_defs command_is_key_pressed_def)
  from command_get_by_key_first_wins[OF h] h show ?thesis by auto
qed

subsection \<open>Resetting the keys\<close>

lemma reset_keys_map: "command_reset_keys cmds = map (\<lambda>c. c\<lparr>accel := None\<rparr>) cmds"
  by (induction cmds) auto

lemma reset_keys_accel: "c \<in> set (command_reset_keys cmds) \<Longrightarrow> accel c = None"
  by (induction cmds) (auto split: if_splits)

lemma reset_keys_no_key: "command_get_by_key chk (command_reset_keys cmds) msg = None"
  by (induction cmds) (auto simp: command_is_key_pressed_def)

lemma reset_keys_idem: "command_reset_keys (command_reset_keys cmds) = command_reset_keys cmds"
  by (induction cmds) auto

text \<open>
  Claim C7. After \<open>command_reset_keys\<close> every command of the registry has no accelerator
  (and is otherwise what it was), \<open>command_get_by_key\<close> returns not-found for every
  event, whatever the accelerator matcher, and a second reset changes nothing.
\<close>

theorem command_reset_keys_clears:
  "(\<forall>c \<in> set (command_reset_keys commands). accel c = None)
   \<and> command_reset_keys commands = map (\<lambda>c. c\<lparr>accel := None\<rparr>) commands
   \<and> (\<forall>msg. command_get_by_key chk (command_reset_keys commands) msg = None)
   \<and> command_reset_keys (command_reset_keys commands) = command_reset_keys commands"
proof (intro conjI allI ballI)
  fix c assume "c \<in> set (command_reset_keys commands)"
  then show "accel c = None" by (rule reset_keys_accel)
next
  show "command_reset_keys commands = map (\<lambda>c. c\<lparr>accel := None\<rparr>) commands"
    by (rule reset_keys_map)
next
  fix msg show "command_get_by_key chk (command_reset_keys commands) msg = None"
    by (rule reset_keys_no_key)
next
  show "command_reset_keys (command_reset_keys commands) = command_reset_keys commands"
    by (rule reset_keys_idem)
qed

theorem command_reset_keys_clears_witness:
  "command_get_by_key example_jaccel_check example_registry example_key = Some example_undo
   \<and> map accel (command_reset_keys example_registry) = [None, None, None]
   \<and> command_get_by_key example_jaccel_check (command_reset_keys example_registry) example_key
       = None
   \<and> command_reset_keys (command_reset_keys example_registry)
       = command_reset_keys example_registry"
  using command_reset_keys_clears[of example_registry example_jaccel_check]
  by (simp add: example_command_defs command_is_key_pressed_def)


section \<open>Properties of the tooltip engine\<close>

subsection \<open>The placement loop, unrolled\<close>

lemma all_less_4: "(\<forall>k<4::nat. P k) = (P 0 \<and> P 1 \<and> P 2 \<and> P 3)"
  by (auto simp: less_Suc_eq numeral_eq_Suc)

lemma all_less_3: "(\<forall>k<3::nat. P k) = (P 0 \<and> P 1 \<and> P 2)"
  by (auto simp: less_Suc_eq numeral_eq_Suc)

lemma all_less_2: "(\<forall>k<2::nat. P k) = (P 0 \<and> P 1)"
  by (auto simp: less_Suc_eq numeral_eq_Suc)

lemma place_loop_unroll:
  "place_loop env bounds w h 0 al xy tw =
     (if \<not> intersects env bounds (spec_attempt_rect env bounds w h al xy 0) then
        (0, openWindow (positionWindow (rect_x (spec_attempt_rect env bounds w h al xy 0))
                          (rect_y (spec_attempt_rect env bounds w h al xy 0))
                          (setArrowAlign (spec_attempt_align 0 al) tw)))
      else if \<not> intersects env bounds (spec_attempt_rect env bounds w h al xy 1) then
        (1, openWindow (positionWindow (rect_x (spec_attempt_rect env bounds w h al xy 1))
                          (rect_y (spec_attempt_rect env bounds w h al xy 1))
                          (setArrowAlign (spec_attempt_align 1 al) tw)))
      else if \<not> intersects env bounds (spec_attempt_rect env bounds w h al xy 2) then
        (2, openWindow (positionWindow (rect_x (spec_attempt_rect env bounds w h al xy 2))
                          (rect_y (spec_attempt_rect env bounds w h al xy 2))
                          (setArrowAlign (spec_attempt_align 2 al) tw)))
      else if \<not> intersects env bounds (spec_attempt_rect env bounds w h al xy 3) then
        (3, openWindow (positionWindow (rect_x (spec_attempt_rect env bounds w h al xy 3))
                          (rect_y (spec_attempt_rect env bounds w h al xy 3))
                          (setArrowAlign (spec_attempt_align 3 al) tw)))
      else (4, tw))"
  by (simp add: place_loop.simps eval_nat_numeral)

lemma spec_attempt_rect_size:
  "rect_w (spec_attempt_rect env bounds w h al xy k) = w"
  "rect_h (spec_attempt_rect env bounds w h al xy k) = h"
  by (cases k; simp add: clamped_def)+

lemma MID_bounds: "lo \<le> hi \<Longrightarrow> lo \<le> MID lo v hi \<and> MID lo v hi \<le> hi"
  by (simp add: MID_def MAX_macro_def MIN_macro_def)

lemma clamped_within:
  assumes "w \<le> display_w env" "h \<le> display_h env"
  shows "within_display env (clamped env al bounds w h xy)"
proof -
  have "0 \<le> display_w env - w" "0 \<le> display_h env - h" using assms by simp_all
  from MID_bounds[OF this(1), of "fst (candidate al bounds w h xy)"]
       MID_bounds[OF this(2), of "snd (candidate al bounds w h xy)"]
  show ?thesis
    by (simp add: within_display_def clamped_def)
qed

lemma spec_attempt_rect_within:
  "w \<le> display_w env \<Longrightarrow> h \<le> display_h env \<Longrightarrow>
   within_display env (spec_attempt_rect env bounds w h al xy k)"
  by (cases k) (simp_all add: clamped_within)

subsection \<open>One tick\<close>

lemma tick_attempt_size:
  "rect_w (tick_attempt env s wd k) = rect_w (tw_bounds (tick_window env s wd))"
  "rect_h (tick_attempt env s wd k) = rect_h (tw_bounds (tick_window env s wd))"
  by (simp_all add: tick_attempt_def spec_attempt_rect_size)

lemma tick_placed_fields:
  "tw_open (tick_placed env s wd k)"
  "tw_bounds (tick_placed env s wd k) = tick_attempt env s wd k"
  "m_arrowAlign (tick_placed env s wd k) = spec_attempt_align k (arrowAlign (tipInfo (m_target s)))"
  "tw_text (tick_placed env s wd k) = tip_text (tipInfo (m_target s))"
  "tw_target (tick_placed env s wd k) = widget_bounds env wd"
proof -
  have "tw_bounds (tick_placed env s wd k) =
      (tw_bounds (tick_window env s wd))\<lparr>rect_x := rect_x (tick_attempt env s wd k),
                                          rect_y := rect_y (tick_attempt env s wd k)\<rparr>"
    by (simp add: tick_placed_def openWindow_def positionWindow_def setArrowAlign_def)
  also have "\<dots> = tick_attempt env s wd k"
    using tick_attempt_size[of env s wd k] by (cases "tw_bounds (tick_window env s wd)") simp
  finally show "tw_bounds (tick_placed env s wd k) = tick_attempt env s wd k" .
qed (simp_all add: tick_placed_def openWindow_def positionWindow_def setArrowAlign_def
       tick_window_def remapWindow_def TipWindow_new_def)

lemma tick_attempt_within:
  assumes "rect_w (tick_attempt env s wd k) \<le> display_w env"
      and "rect_h (tick_attempt env s wd k) \<le> display_h env"
  shows "within_display env (tick_attempt env s wd k)"
  using assms unfolding tick_attempt_size
  by (simp add: tick_attempt_def spec_attempt_rect_within)

lemma onTick_no_window:
  assumes "m_tipWindow s = None" "widget (m_target s) = Some wd" "m_timer s = Some t"
  shows "onTick env s =
     Inr (if \<not> tick_collides env s wd 0 then
            s\<lparr>m_tipWindow := Some (tick_placed env s wd 0), m_timer := Some (timer_stop t)\<rparr>
          else if \<not> tick_collides env s wd 1 then
            s\<lparr>m_tipWindow := Some (tick_placed env s wd 1), m_timer := Some (timer_stop t)\<rparr>
          else if \<not> tick_collides env s wd 2 then
            s\<lparr>m_tipWindow := Some (tick_placed env s wd 2), m_timer := Some (timer_stop t)\<rparr>
          else if \<not> tick_collides env s wd 3 then
            s\<lparr>m_tipWindow := Some (tick_placed env s wd 3), m_timer := Some (timer_stop t)\<rparr>
          else s\<lparr>m_timer := Some (timer_stop t)\<rparr>)"
  using assms
  by (simp add: onTick_def place_loop_unroll tick_collides_def tick_placed_def tick_attempt_def
        tick_window_def stop_timer_def timer_stop_def Let_def)

lemma onTick_window:
  assumes "m_tipWindow s = Some tw" "m_timer s = Some t"
  shows "onTick env s = Inr (s\<lparr>m_timer := Some (timer_stop t)\<rparr>)"
  using assms by (simp add: onTick_def stop_timer_def)

lemma onTick_result:
  assumes "m_tipWindow s = None" "widget (m_target s) = Some wd" "m_timer s = Some t"
  shows "(\<forall>k<4. tick_collides env s wd k) \<and> onTick env s = Inr (s\<lparr>m_timer := Some (timer_stop t)\<rparr>)
       \<or> (\<exists>k<4. \<not> tick_collides env s wd k \<and> (\<forall>j<k. tick_collides env s wd j) \<and>
             onTick env s = Inr (s\<lparr>m_tipWindow := Some (tick_placed env s wd k),
                                     m_timer := Some (timer_stop t)\<rparr>))"
proof -
  note eq = onTick_no_window[OF assms, of env]
  consider (c0) "\<not> tick_collides env s wd 0"
    | (c1) "tick_collides env s wd 0" "\<not> tick_collides env s wd 1"
    | (c2) "tick_collides env s wd 0" "tick_collides env s wd 1" "\<not> tick_collides env s wd 2"
    | (c3) "tick_collides env s wd 0" "tick_collides env s wd 1" "tick_collides env s wd 2"
           "\<not> tick_collides env s wd 3"
    | (c4) "tick_collides env s wd 0" "tick_collides env s wd 1" "tick_collides env s wd 2"
           "tick_collides env s wd 3"
    by blast
  then show ?thesis
  proof cases
    case c0
    with eq have "(0::nat) < 4 \<and> \<not> tick_collides env s wd 0
        \<and> (\<forall>j<0. tick_collides env s wd j)
        \<and> onTick env s = Inr (s\<lparr>m_tipWindow := Some (tick_placed env s wd 0),
                                  m_timer := Some (timer_stop t)\<rparr>)"
      by simp
    then show ?thesis by blast
  next
    case c1
    with eq have "(1::nat) < 4 \<and> \<not> tick_collides env s wd 1
        \<and> (\<forall>j<1. tick_collides env s wd j)
        \<and> onTick env s = Inr (s\<lparr>m_tipWindow := Some (tick_placed env s wd 1),
                                  m_timer := Some (timer_stop t)\<rparr>)"
      by simp
    then show ?thesis by blast
  next
    case c2
    with eq have "(2::nat) < 4 \<and> \<not> tick_collides env s wd 2
        \<and> (\<forall>j<2. tick_collides env s wd j)
        \<and> onTick env s = Inr (s\<lparr>m_tipWindow := Some (tick_placed env s wd 2),
                                  m_timer := Some (timer_stop t)\<rparr>)"
      by (simp add: all_less_2)
    then show ?thesis by blast
  next
    case c3
    with eq have "(3::nat) < 4 \<and> \<not> tick_collides env s wd 3
        \<and> (\<forall>j<3. tick_collides env s wd j)
        \<and> onTick env s = Inr (s\<lparr>m_tipWindow := Some (tick_placed env s wd 3),
                                  m_timer := Some (timer_stop t)\<rparr>)"
      by (simp add: all_less_3)
    then show ?thesis by blast
  next
    case c4
    with eq show ?thesis by (simp add: all_less_4)
  qed
qed

lemma stopped_timer_facts:
  "m_timer s' = Some (timer_stop t) \<Longrightarrow> \<not> timer_running s' \<and> fire_timer env s' = Inr s'"
  by (simp add: timer_running_def fire_timer_def timer_stop_def)

lemma spec_attempt_align_table:
  assumes "al \<in> set arrow_alignments"
  shows "[spec_attempt_align 0 al, spec_attempt_align 1 al, spec_attempt_align 2 al,
          spec_attempt_align 3 al] = alternate_sequence al"
proof -
  from assms consider "al = JI_TOP OR JI_LEFT" | "al = JI_TOP OR JI_RIGHT"
    | "al = JI_BOTTOM OR JI_LEFT" | "al = JI_BOTTOM OR JI_RIGHT"
    | "al = JI_TOP" | "al = JI_BOTTOM" | "al = JI_LEFT" | "al = JI_RIGHT"
    by (auto simp: arrow_alignments_def)
  then show ?thesis
    by cases
      (simp_all add: alternate_sequence_def eval_nat_numeral next_align_def
         switch_position_def rotate_positions_def toggle_def
         JI_TOP_def JI_BOTTOM_def JI_LEFT_def JI_RIGHT_def)
qed

lemma alternate_sequence_nth:
  assumes "al \<in> set arrow_alignments" "k < 4"
  shows "spec_attempt_align k al = alternate_sequence al ! k"
proof -
  from assms(2) consider "k = 0" | "k = 1" | "k = 2" | "k = 3" by linarith
  then show ?thesis
    by cases (simp_all add: spec_attempt_align_table[OF assms(1), symmetric])
qed

lemma tick_attempt_step:
  "tick_attempt env s wd k =
     clamped env (spec_attempt_align k (arrowAlign (tipInfo (m_target s)))) (widget_bounds env wd)
       (rect_w (tw_bounds (tick_window env s wd))) (rect_h (tw_bounds (tick_window env s wd)))
       (tick_origin env s wd k)"
  by (cases k) (simp_all add: tick_attempt_def tick_origin_def)

lemmas example_tooltip_defs =
  example_column_def example_top_tip_def example_pending_top_def example_corner_tip_def
  example_pending_corner_def
  example_env_def example_pending_def example_shown_def example_target_def
  example_other_target_def example_whole_display_def example_popup_def example_undo_popup_def
  example_undo_tip_def example_redo_tip_def example_running_def example_stopped_def
  example_base_def example_enter_redo_def example_key_down_def overlap_def

lemmas tooltip_eval_defs =
  onTick_def place_loop.simps clamped_def candidate_def MID_def MAX_macro_def MIN_macro_def
  JI_TOP_def JI_BOTTOM_def JI_LEFT_def JI_RIGHT_def half_def remapWindow_def TipWindow_new_def
  positionWindow_def openWindow_def setArrowAlign_def stop_timer_def timer_stop_def
  timer_start_def next_align_def switch_position_def rotate_positions_def toggle_def
  onProcessMessage_def enter_widget_def dismiss_def kTooltipDelayMsecs_def

text \<open>The examples, run.\<close>

lemma example_tick_places:
  "onTick (example_env example_target (60, 30)) example_pending = Inr example_shown"
  by (simp add: example_tooltip_defs tooltip_eval_defs)

lemma example_tick_oversized:
  "onTick (example_env example_target (60, 700)) example_pending =
     Inr (example_pending
            \<lparr>m_tipWindow := Some (example_popup ''Undo'' (JI_BOTTOM OR JI_RIGHT) example_target
                                   \<lparr>rect_x = 40, rect_y = 0, rect_w = 60, rect_h = 700\<rparr>),
             m_timer := Some example_stopped\<rparr>)"
  by (simp add: example_tooltip_defs tooltip_eval_defs)

lemma example_tick_no_room:
  "onTick (example_env example_whole_display (60, 30)) example_pending =
     Inr (example_pending\<lparr>m_timer := Some example_stopped\<rparr>)"
  by (simp add: example_tooltip_defs tooltip_eval_defs)

lemma example_tick_retries:
  "onTick (example_env example_column (60, 30)) example_pending_top =
     Inr (example_pending_top
            \<lparr>m_tipWindow := Some (example_popup ''Undo'' JI_LEFT example_column
                                   \<lparr>rect_x = 700, rect_y = 285, rect_w = 60, rect_h = 30\<rparr>),
             m_timer := Some example_stopped\<rparr>)"
  by (simp add: example_tooltip_defs tooltip_eval_defs)

lemma example_enter_pending:
  "onProcessMessage example_base example_enter_redo example_pending =
     (False, example_pending\<lparr>m_target := \<lparr>widget = Some 8, tipInfo = example_redo_tip\<rparr>\<rparr>)"
  by (simp add: example_tooltip_defs tooltip_eval_defs)

lemma example_enter_shown:
  "onProcessMessage example_base example_enter_redo example_shown =
     (False, example_shown\<lparr>m_target := \<lparr>widget = Some 8, tipInfo = example_redo_tip\<rparr>,
                            m_timer := Some example_running\<rparr>)"
  by (simp add: example_tooltip_defs tooltip_eval_defs)

lemma example_tick_redo:
  "onTick (example_env example_target (60, 30))
      (example_pending\<lparr>m_target := \<lparr>widget = Some 8, tipInfo = example_redo_tip\<rparr>\<rparr>) =
     Inr (example_pending
            \<lparr>m_target := \<lparr>widget = Some 8, tipInfo = example_redo_tip\<rparr>,
             m_tipWindow := Some (example_popup ''Redo'' JI_TOP example_other_target
                                   \<lparr>rect_x = 195, rect_y = 120, rect_w = 60, rect_h = 30\<rparr>),
             m_timer := Some example_stopped\<rparr>)"
  by (simp add: example_tooltip_defs tooltip_eval_defs)

lemma example_tick_shown:
  "onTick (example_env example_target (60, 30))
      (example_shown\<lparr>m_target := \<lparr>widget = Some 8, tipInfo = example_redo_tip\<rparr>,
                      m_timer := Some example_running\<rparr>) =
     Inr (example_shown\<lparr>m_target := \<lparr>widget = Some 8, tipInfo = example_redo_tip\<rparr>\<rparr>)"
  by (simp add: example_tooltip_defs tooltip_eval_defs)

subsection \<open>Placement\<close>

text \<open>
  Claim C2, as the code has it. A tick with no tip window open, a target widget and a
  timer always returns. It leaves no popup exactly when all four attempts collide with
  the target \<open>T\<close>. A popup it opens is the first attempt that does not collide: it does
  not intersect \<open>T\<close>, every attempt before it collided, and when the popup is no wider
  and no taller than the display it lies fully within
  \<open>[0, display_width] \<times> [0, display_height]\<close>. (A popup larger than the display is opened
  all the same and cannot lie within it.) For each of the eight arrow alignments, the
  rectangle tested at attempt \<open>k\<close> is the clamped candidate for the \<open>k\<close>-th alignment of
  the search order written out in \<open>alternate_sequence\<close>, and that alignment is the one
  recorded in the popup: attempt 1 flips both axes, and for a side alignment attempts 2
  and 3 go on to the two sides of the other axis.
\<close>

theorem onTick_placement:
  assumes "m_tipWindow s = None" and "widget (m_target s) = Some wd" and "m_timer s = Some t"
  shows "\<exists>s'. onTick env s = Inr s' \<and>
     (m_tipWindow s' = None \<longleftrightarrow> (\<forall>k<4. tick_collides env s wd k)) \<and>
     (\<forall>tw. m_tipWindow s' = Some tw \<longrightarrow>
        tw_open tw \<and> \<not> intersects env (widget_bounds env wd) (tw_bounds tw) \<and>
        (\<exists>k<4. tw = tick_placed env s wd k \<and> tw_bounds tw = tick_attempt env s wd k \<and>
                (\<forall>j<k. tick_collides env s wd j) \<and>
                (arrowAlign (tipInfo (m_target s)) \<in> set arrow_alignments \<longrightarrow>
                   m_arrowAlign tw = alternate_sequence (arrowAlign (tipInfo (m_target s))) ! k)) \<and>
        (rect_w (tw_bounds tw) \<le> display_w env \<and> rect_h (tw_bounds tw) \<le> display_h env
           \<longrightarrow> within_display env (tw_bounds tw))) \<and>
     (arrowAlign (tipInfo (m_target s)) \<in> set arrow_alignments \<longrightarrow>
        (\<forall>k<4. tick_attempt env s wd k =
           clamped env (alternate_sequence (arrowAlign (tipInfo (m_target s))) ! k)
             (widget_bounds env wd)
             (rect_w (tw_bounds (tick_window env s wd)))
             (rect_h (tw_bounds (tick_window env s wd)))
             (tick_origin env s wd k)))"
proof -
  let ?al = "arrowAlign (tipInfo (m_target s))"
  have tbl: "?al \<in> set arrow_alignments \<longrightarrow>
        (\<forall>k<4. tick_attempt env s wd k =
           clamped env (alternate_sequence ?al ! k) (widget_bounds env wd)
             (rect_w (tw_bounds (tick_window env s wd)))
             (rect_h (tw_bounds (tick_window env s wd)))
             (tick_origin env s wd k))"
    using tick_attempt_step[of env s wd] by (simp add: alternate_sequence_nth)
  from onTick_result[OF assms, of env] show ?thesis
  proof (elim disjE conjE exE)
    assume "\<forall>k<4. tick_collides env s wd k"
      and "onTick env s = Inr (s\<lparr>m_timer := Some (timer_stop t)\<rparr>)"
    then show ?thesis using assms(1) tbl by simp
  next
    fix k
    assume k: "k < 4" "\<not> tick_collides env s wd k" "\<forall>j<k. tick_collides env s wd j"
      and eq: "onTick env s = Inr (s\<lparr>m_tipWindow := Some (tick_placed env s wd k),
                                       m_timer := Some (timer_stop t)\<rparr>)"
    let ?tw = "tick_placed env s wd k"
    have b: "tw_bounds ?tw = tick_attempt env s wd k" by (rule tick_placed_fields)
    have 1: "tw_open ?tw" by (rule tick_placed_fields)
    have 2: "\<not> intersects env (widget_bounds env wd) (tw_bounds ?tw)"
      using k(2) by (simp add: b tick_collides_def)
    have a: "?al \<in> set arrow_alignments \<longrightarrow> m_arrowAlign ?tw = alternate_sequence ?al ! k"
      using k(1) by (simp add: tick_placed_fields alternate_sequence_nth)
    have 3: "\<exists>k<4. ?tw = tick_placed env s wd k \<and> tw_bounds ?tw = tick_attempt env s wd k \<and>
                  (\<forall>j<k. tick_collides env s wd j) \<and>
                  (?al \<in> set arrow_alignments \<longrightarrow> m_arrowAlign ?tw = alternate_sequence ?al ! k)"
      using k b a by blast
    have 4: "rect_w (tw_bounds ?tw) \<le> display_w env \<and> rect_h (tw_bounds ?tw) \<le> display_h env
             \<longrightarrow> within_display env (tw_bounds ?tw)"
      by (simp add: b tick_attempt_within)
    have 5: "\<not> (\<forall>k<4. tick_collides env s wd k)" using k by blast
    from eq 1 2 3 4 5 tbl show ?thesis by simp
  qed
qed

text \<open>
  The example of the specification: target \<open>(100,100,50,20)\<close>, display 800 by 600, popup
  60 by 30, arrow at the bottom right. The popup is opened at \<open>(40,70)\<close>, above and left
  of the target. And a search that needs every attempt: the target \<open>(0,0,700,600)\<close> with
  the arrow at the top leaves no room below, above or to the left, so the attempts for
  top, bottom and right collide and the popup is opened to the right of the target at
  \<open>(700,285)\<close>, with the arrow at the left.
\<close>

theorem onTick_placement_witness:
  "m_tipWindow example_pending = None
   \<and> widget (m_target example_pending) = Some 7
   \<and> m_timer example_pending = Some example_running
   \<and> onTick (example_env example_target (60, 30)) example_pending = Inr example_shown
   \<and> m_tipWindow example_shown = Some example_undo_popup
   \<and> tw_bounds example_undo_popup = \<lparr>rect_x = 40, rect_y = 70, rect_w = 60, rect_h = 30\<rparr>
   \<and> rect_w (tw_bounds example_undo_popup) \<le> display_w (example_env example_target (60, 30))
   \<and> rect_h (tw_bounds example_undo_popup) \<le> display_h (example_env example_target (60, 30))
   \<and> within_display (example_env example_target (60, 30)) (tw_bounds example_undo_popup)
   \<and> \<not> intersects (example_env example_target (60, 30)) example_target
          (tw_bounds example_undo_popup)
   \<and> m_tipWindow example_pending_top = None
   \<and> widget (m_target example_pending_top) = Some 7
   \<and> m_timer example_pending_top = Some example_running
   \<and> arrowAlign (tipInfo (m_target example_pending_top)) \<in> set arrow_alignments
   \<and> alternate_sequence (arrowAlign (tipInfo (m_target example_pending_top)))
        = [JI_TOP, JI_BOTTOM, JI_RIGHT, JI_LEFT]
   \<and> tick_collides (example_env example_column (60, 30)) example_pending_top 7 0
   \<and> tick_collides (example_env example_column (60, 30)) example_pending_top 7 1
   \<and> tick_collides (example_env example_column (60, 30)) example_pending_top 7 2
   \<and> \<not> tick_collides (example_env example_column (60, 30)) example_pending_top 7 3
   \<and> tick_attempt (example_env example_column (60, 30)) example_pending_top 7 0
        = \<lparr>rect_x = 320, rect_y = 570, rect_w = 60, rect_h = 30\<rparr>
   \<and> tick_attempt (example_env example_column (60, 30)) example_pending_top 7 1
        = \<lparr>rect_x = 320, rect_y = 0, rect_w = 60, rect_h = 30\<rparr>
   \<and> tick_attempt (example_env example_column (60, 30)) example_pending_top 7 2
        = \<lparr>rect_x = 0, rect_y = 285, rect_w = 60, rect_h = 30\<rparr>
   \<and> tick_attempt (example_env example_column (60, 30)) example_pending_top 7 3
        = \<lparr>rect_x = 700, rect_y = 285, rect_w = 60, rect_h = 30\<rparr>
   \<and> onTick (example_env example_column (60, 30)) example_pending_top
        = Inr (example_pending_top
            \<lparr>m_tipWindow := Some (example_popup ''Undo'' JI_LEFT example_column
                                   \<lparr>rect_x = 700, rect_y = 285, rect_w = 60, rect_h = 30\<rparr>),
             m_timer := Some example_stopped\<rparr>)
   \<and> m_arrowAlign (example_popup ''Undo'' JI_LEFT example_column
                      \<lparr>rect_x = 700, rect_y = 285, rect_w = 60, rect_h = 30\<rparr>)
        = alternate_sequence (arrowAlign (tipInfo (m_target example_pending_top))) ! 3"
proof -
  let ?env = "example_env example_target (60, 30)"
  have h: "m_tipWindow example_pending = None" "widget (m_target example_pending) = Some 7"
    "m_timer example_pending = Some example_running"
    by (simp_all add: example_tooltip_defs)
  have w: "m_tipWindow example_shown = Some example_undo_popup"
    by (simp add: example_tooltip_defs)
  have sz: "tw_bounds example_undo_popup = \<lparr>rect_x = 40, rect_y = 70, rect_w = 60, rect_h = 30\<rparr>"
    "rect_w (tw_bounds example_undo_popup) \<le> display_w ?env"
    "rect_h (tw_bounds example_undo_popup) \<le> display_h ?env"
    "widget_bounds ?env 7 = example_target"
    by (simp_all add: example_tooltip_defs)
  from onTick_placement[OF h, of ?env] obtain s' where s': "onTick ?env example_pending = Inr s'"
    and popup: "\<forall>tw. m_tipWindow s' = Some tw \<longrightarrow>
        tw_open tw \<and> \<not> intersects ?env (widget_bounds ?env 7) (tw_bounds tw) \<and>
        (rect_w (tw_bounds tw) \<le> display_w ?env \<and> rect_h (tw_bounds tw) \<le> display_h ?env
           \<longrightarrow> within_display ?env (tw_bounds tw))"
    by blast
  from s' have "s' = example_shown" by (simp add: example_tick_places)
  with popup w sz have first: "within_display ?env (tw_bounds example_undo_popup)"
    "\<not> intersects ?env example_target (tw_bounds example_undo_popup)"
    by auto
  let ?env2 = "example_env example_column (60, 30)"
  let ?al = "arrowAlign (tipInfo (m_target example_pending_top))"
  let ?popup = "example_popup ''Undo'' JI_LEFT example_column
                  \<lparr>rect_x = 700, rect_y = 285, rect_w = 60, rect_h = 30\<rparr>"
  have h2: "m_tipWindow example_pending_top = None"
    "widget (m_target example_pending_top) = Some 7"
    "m_timer example_pending_top = Some example_running"
    by (simp_all add: example_tooltip_defs)
  have al: "?al \<in> set arrow_alignments" "?al = JI_TOP"
    by (simp_all add: example_tooltip_defs arrow_alignments_def)
  have sq: "alternate_sequence ?al = [JI_TOP, JI_BOTTOM, JI_RIGHT, JI_LEFT]"
    by (simp add: al(2) alternate_sequence_def)
  have att: "tick_attempt ?env2 example_pending_top 7 0
        = \<lparr>rect_x = 320, rect_y = 570, rect_w = 60, rect_h = 30\<rparr>"
    "tick_attempt ?env2 example_pending_top 7 1
        = \<lparr>rect_x = 320, rect_y = 0, rect_w = 60, rect_h = 30\<rparr>"
    "tick_attempt ?env2 example_pending_top 7 2
        = \<lparr>rect_x = 0, rect_y = 285, rect_w = 60, rect_h = 30\<rparr>"
    "tick_attempt ?env2 example_pending_top 7 3
        = \<lparr>rect_x = 700, rect_y = 285, rect_w = 60, rect_h = 30\<rparr>"
    by (simp_all add: tick_attempt_def tick_window_def eval_nat_numeral
          example_tooltip_defs tooltip_eval_defs)
  have col: "tick_collides ?env2 example_pending_top 7 0"
    "tick_collides ?env2 example_pending_top 7 1"
    "tick_collides ?env2 example_pending_top 7 2"
    "\<not> tick_collides ?env2 example_pending_top 7 3"
    unfolding tick_collides_def att
    by (simp_all add: example_env_def example_column_def overlap_def)
  from onTick_placement[OF h2, of ?env2] obtain s2 where s2: "onTick ?env2 example_pending_top = Inr s2"
    and popup2: "\<forall>tw. m_tipWindow s2 = Some tw \<longrightarrow>
        (\<exists>k<4. tw = tick_placed ?env2 example_pending_top 7 k
              \<and> tw_bounds tw = tick_attempt ?env2 example_pending_top 7 k
              \<and> (\<forall>j<k. tick_collides ?env2 example_pending_top 7 j)
              \<and> (?al \<in> set arrow_alignments \<longrightarrow> m_arrowAlign tw = alternate_sequence ?al ! k))"
    by blast
  from s2 have w2: "m_tipWindow s2 = Some ?popup" by (auto simp: example_tick_retries)
  with popup2 al(1) obtain k where k: "k < 4" "tw_bounds ?popup = tick_attempt ?env2 example_pending_top 7 k"
    "m_arrowAlign ?popup = alternate_sequence ?al ! k"
    by blast
  from k(1) consider "k = 0" | "k = 1" | "k = 2" | "k = 3" by linarith
  then have "k = 3" using k(2) att by cases (simp_all add: example_popup_def)
  with k(3) have last: "m_arrowAlign ?popup = alternate_sequence ?al ! 3" by simp
  from h w sz first example_tick_places h2 al(1) sq col att example_tick_retries last
  show ?thesis by simp
qed

text \<open>
  The first target and display with a popup of 60 by 700: the popup is opened at
  \<open>(40,0)\<close>, clear of the target, and reaches below the display. And a target that fills
  the display with the arrow at the top left: the alignments of the four attempts are
  top-left, bottom-right, and twice no alignment at all, so that attempts 2 and 3 test
  the rectangle of attempt 1 again and no further alignment is tried.
\<close>

theorem onTick_oversized_popup_outside_display:
  "onTick (example_env example_target (60, 700)) example_pending =
     Inr (example_pending
            \<lparr>m_tipWindow := Some (example_popup ''Undo'' (JI_BOTTOM OR JI_RIGHT) example_target
                                   \<lparr>rect_x = 40, rect_y = 0, rect_w = 60, rect_h = 700\<rparr>),
             m_timer := Some example_stopped\<rparr>)
   \<and> \<not> within_display (example_env example_target (60, 700))
          \<lparr>rect_x = 40, rect_y = 0, rect_w = 60, rect_h = 700\<rparr>
   \<and> alternate_sequence (arrowAlign (tipInfo (m_target example_pending_corner)))
        = [JI_TOP OR JI_LEFT, JI_BOTTOM OR JI_RIGHT, 0, 0]
   \<and> 0 \<notin> set arrow_alignments
   \<and> tick_attempt (example_env example_whole_display (60, 30)) example_pending_corner 7 0
        = \<lparr>rect_x = 740, rect_y = 570, rect_w = 60, rect_h = 30\<rparr>
   \<and> tick_attempt (example_env example_whole_display (60, 30)) example_pending_corner 7 1
        = \<lparr>rect_x = 0, rect_y = 0, rect_w = 60, rect_h = 30\<rparr>
   \<and> tick_attempt (example_env example_whole_display (60, 30)) example_pending_corner 7 2
        = \<lparr>rect_x = 0, rect_y = 0, rect_w = 60, rect_h = 30\<rparr>
   \<and> tick_attempt (example_env example_whole_display (60, 30)) example_pending_corner 7 3
        = \<lparr>rect_x = 0, rect_y = 0, rect_w = 60, rect_h = 30\<rparr>"
proof -
  have "\<not> within_display (example_env example_target (60, 700))
          \<lparr>rect_x = 40, rect_y = 0, rect_w = 60, rect_h = 700\<rparr>"
    by (simp add: within_display_def example_env_def)
  moreover have "alternate_sequence (arrowAlign (tipInfo (m_target example_pending_corner)))
        = [JI_TOP OR JI_LEFT, JI_BOTTOM OR JI_RIGHT, 0, 0]"
    by (simp add: example_tooltip_defs alternate_sequence_def
          JI_TOP_def JI_BOTTOM_def JI_LEFT_def JI_RIGHT_def)
  moreover have "0 \<notin> set arrow_alignments"
    by (simp add: arrow_alignments_def JI_TOP_def JI_BOTTOM_def JI_LEFT_def JI_RIGHT_def)
  moreover have
    "tick_attempt (example_env example_whole_display (60, 30)) example_pending_corner 7 0
        = \<lparr>rect_x = 740, rect_y = 570, rect_w = 60, rect_h = 30\<rparr>"
    "tick_attempt (example_env example_whole_display (60, 30)) example_pending_corner 7 1
        = \<lparr>rect_x = 0, rect_y = 0, rect_w = 60, rect_h = 30\<rparr>"
    "tick_attempt (example_env example_whole_display (60, 30)) example_pending_corner 7 2
        = \<lparr>rect_x = 0, rect_y = 0, rect_w = 60, rect_h = 30\<rparr>"
    "tick_attempt (example_env example_whole_display (60, 30)) example_pending_corner 7 3
        = \<lparr>rect_x = 0, rect_y = 0, rect_w = 60, rect_h = 30\<rparr>"
    by (simp_all add: tick_attempt_def tick_window_def eval_nat_numeral
          example_tooltip_defs tooltip_eval_defs)
  ultimately show ?thesis using example_tick_oversized by simp
qed

text \<open>
  Claim C3. When all four attempts collide with the target, the tick returns normally
  (no error reaches a caller), no popup is left, the timer is stopped and the engine is
  Idle; nothing else of the manager changes.
\<close>

theorem onTick_no_room:
  assumes "m_tipWindow s = None" and "widget (m_target s) = Some wd" and "m_timer s = Some t"
      and "\<forall>k<4. tick_collides env s wd k"
  shows "\<exists>s'. onTick env s = Inr s' \<and> s' = s\<lparr>m_timer := Some (timer_stop t)\<rparr> \<and>
           m_tipWindow s' = None \<and> \<not> timer_running s' \<and> state_of s' = Idle"
  using onTick_no_window[OF assms(1-3), of env] assms(1,4)
  by (simp add: all_less_4 timer_running_def state_of_def timer_stop_def)

text \<open>A target that covers the whole display: every attempt collides.\<close>

theorem onTick_no_room_witness:
  "m_tipWindow example_pending = None
   \<and> widget (m_target example_pending) = Some 7
   \<and> m_timer example_pending = Some example_running
   \<and> tick_collides (example_env example_whole_display (60, 30)) example_pending 7 0
   \<and> tick_collides (example_env example_whole_display (60, 30)) example_pending 7 1
   \<and> tick_collides (example_env example_whole_display (60, 30)) example_pending 7 2
   \<and> tick_collides (example_env example_whole_display (60, 30)) example_pending 7 3
   \<and> state_of example_pending = Pending
   \<and> onTick (example_env example_whole_display (60, 30)) example_pending
       = Inr (example_pending\<lparr>m_timer := Some example_stopped\<rparr>)
   \<and> state_of (example_pending\<lparr>m_timer := Some example_stopped\<rparr>) = Idle"
proof -
  let ?env = "example_env example_whole_display (60, 30)"
  have h: "m_tipWindow example_pending = None" "widget (m_target example_pending) = Some 7"
    "m_timer example_pending = Some example_running"
    by (simp_all add: example_tooltip_defs)
  have c: "tick_collides ?env example_pending 7 0" "tick_collides ?env example_pending 7 1"
    "tick_collides ?env example_pending 7 2" "tick_collides ?env example_pending 7 3"
    by (simp_all add: tick_collides_def tick_attempt_def tick_window_def eval_nat_numeral
          example_tooltip_defs tooltip_eval_defs)
  then have a: "\<forall>k<4. tick_collides ?env example_pending 7 k" by (simp add: all_less_4)
  have p: "state_of example_pending = Pending"
    by (simp add: state_of_def timer_running_def example_tooltip_defs)
  from onTick_no_room[OF h a] have
    "state_of (example_pending\<lparr>m_timer := Some (timer_stop example_running)\<rparr>) = Idle"
    by simp
  then have "state_of (example_pending\<lparr>m_timer := Some example_stopped\<rparr>) = Idle"
    by (simp add: timer_stop_def example_running_def example_stopped_def)
  with h c p example_tick_no_room show ?thesis by simp
qed

subsection \<open>Preferred size\<close>

lemma Max_merge:
  "Max (set (a # b # xs)) = Max (set (max a b # xs))" for a :: int
  by (cases "xs = []") (simp_all add: max.assoc)

lemma children_maxSize_Max:
  "children_maxSize acc cs =
     \<lparr>size_w = Max (set (size_w acc # map size_w cs)),
      size_h = Max (set (size_h acc # map size_h cs))\<rparr>"
proof (induction cs arbitrary: acc)
  case Nil
  show ?case by simp
next
  case (Cons c cs)
  have m: "MAX_macro a b = max b a" for a b by (simp add: MAX_macro_def max_def)
  show ?case
    unfolding children_maxSize.simps Cons.IH list.map
    by (simp only: Max_merge[of "size_w acc"] Max_merge[of "size_h acc"] m max.commute
          Size.simps)
qed

lemmas preferred_size_eval_defs =
  onPreferredSize_def spec_preferred_size_def example_fitString_def
  example_tip_with_children_def example_target_def TipWindow_new_def MAX_macro_def
  client_width_less_border_def

text \<open>
  Claim C4, as the code has it. For every text, text measurement (font), border widths
  and children, the preferred size of the tip window is the fitted text size under the
  available width plus the border widths; with children, the width is the larger of the
  text width and the children's largest width, plus the horizontal borders, and the
  height is the text height plus the vertical borders plus the largest of the children's
  heights (not their sum). The children's largest width and height count from 0.
\<close>

theorem onPreferredSize_value:
  "onPreferredSize fitString tw =
     (let bw = border_width tw;
          fit = fitString (tw_text tw) (client_width_less_border tw) (tw_align tw)
      in if tw_children tw = [] then
           \<lparr>size_w = size_w fit + (border_l bw + border_r bw),
            size_h = size_h fit + (border_t bw + border_b bw)\<rparr>
         else
           \<lparr>size_w = max (size_w fit) (Max (set (0 # map size_w (tw_children tw))))
                      + (border_l bw + border_r bw),
            size_h = size_h fit + (border_t bw + border_b bw)
                      + Max (set (0 # map size_h (tw_children tw)))\<rparr>)"
  by (simp add: onPreferredSize_def children_maxSize_Max Let_def MAX_macro_def max_def)

text \<open>
  The text "Undo" (32 by 8) with borders 6, 6, 6, 7 and two children of 40 by 10 and
  30 by 20: the preferred size is 52 by 41.
\<close>

theorem onPreferredSize_value_witness:
  "onPreferredSize example_fitString example_tip_with_children = \<lparr>size_w = 52, size_h = 41\<rparr>"
  using onPreferredSize_value[of example_fitString example_tip_with_children]
  by (simp add: example_fitString_def example_tip_with_children_def example_target_def
        TipWindow_new_def client_width_less_border_def)

text \<open>With the sum of the children's heights the height would be 51.\<close>

theorem onPreferredSize_height_is_not_sum:
  "size_h (onPreferredSize example_fitString example_tip_with_children) = 41
   \<and> size_h (spec_preferred_size example_fitString example_tip_with_children) = 51"
  by (simp add: preferred_size_eval_defs)

subsection \<open>Dismissal\<close>

lemma dismiss_idle:
  "m_tipWindow (dismiss s) = None \<and> \<not> timer_running (dismiss s) \<and> state_of (dismiss s) = Idle"
  by (simp add: dismiss_def timer_running_def state_of_def timer_stop_def Let_def
        split: option.splits)

text \<open>
  Claim C8. From every state of the manager, a key-down, mouse-down or mouse-leave
  message leaves no tip window and no running timer: the engine is Idle afterwards,
  whatever it was before. The message is not consumed (the handler returns false).
\<close>

theorem dismissal_to_idle:
  assumes "msg_type msg = kKeyDownMessage \<or> msg_type msg = kMouseDownMessage
             \<or> msg_type msg = kMouseLeaveMessage"
  shows "fst (onProcessMessage base msg s) = False
       \<and> m_tipWindow (snd (onProcessMessage base msg s)) = None
       \<and> \<not> timer_running (snd (onProcessMessage base msg s))
       \<and> state_of (snd (onProcessMessage base msg s)) = Idle"
proof -
  from assms have "onProcessMessage base msg s = (False, dismiss s)"
    by (auto simp: onProcessMessage_def)
  then show ?thesis by (simp add: dismiss_idle)
qed

text \<open>A key-down while the popup is shown and the timer has been restarted.\<close>

theorem dismissal_to_idle_witness:
  "msg_type example_key_down = kKeyDownMessage
   \<and> state_of (example_shown\<lparr>m_timer := Some example_running\<rparr>) = Shown
   \<and> timer_running (example_shown\<lparr>m_timer := Some example_running\<rparr>)
   \<and> onProcessMessage example_base example_key_down
        (example_shown\<lparr>m_timer := Some example_running\<rparr>)
       = (False, example_pending\<lparr>m_timer := Some example_stopped\<rparr>)
   \<and> state_of (example_pending\<lparr>m_timer := Some example_stopped\<rparr>) = Idle"
proof -
  have h: "msg_type example_key_down = kKeyDownMessage" by (simp add: example_key_down_def)
  have ev: "onProcessMessage example_base example_key_down
        (example_shown\<lparr>m_timer := Some example_running\<rparr>)
       = (False, example_pending\<lparr>m_timer := Some example_stopped\<rparr>)"
    by (simp add: example_tooltip_defs tooltip_eval_defs)
  have b: "state_of (example_shown\<lparr>m_timer := Some example_running\<rparr>) = Shown"
    "timer_running (example_shown\<lparr>m_timer := Some example_running\<rparr>)"
    by (simp_all add: state_of_def timer_running_def example_tooltip_defs)
  from dismissal_to_idle[of example_key_down example_base
         "example_shown\<lparr>m_timer := Some example_running\<rparr>"] h
  have "state_of (example_pending\<lparr>m_timer := Some example_stopped\<rparr>) = Idle"
    by (simp add: ev)
  with h ev b show ?thesis by simp
qed

subsection \<open>Hover-enter\<close>

lemma enter_widget_no_tip: "m_tips s v = None \<Longrightarrow> enter_widget v s = s"
  by (simp add: enter_widget_def)

lemma enter_widget_tips: "m_tips (enter_widget v s) = m_tips s"
  by (simp add: enter_widget_def Let_def split: option.splits)

lemma enter_widgets_tips: "m_tips (enter_widgets vs s) = m_tips s"
  by (induction vs arbitrary: s) (simp_all add: enter_widget_tips)

lemma enter_widgets_no_tips: "\<forall>v\<in>set vs. m_tips s v = None \<Longrightarrow> enter_widgets vs s = s"
  by (induction vs) (simp_all add: enter_widget_no_tip)

lemma enter_widget_window: "m_tipWindow (enter_widget v s) = m_tipWindow s"
  by (simp add: enter_widget_def Let_def split: option.splits)

lemma enter_widgets_window: "m_tipWindow (enter_widgets vs s) = m_tipWindow s"
  by (induction vs arbitrary: s) (simp_all add: enter_widget_window)

lemma enter_widget_tip:
  "m_tips s v = Some info \<Longrightarrow>
     m_target (enter_widget v s) = \<lparr>widget = Some v, tipInfo = info\<rparr>
   \<and> (\<exists>t. m_timer (enter_widget v s) = Some t \<and> running t)"
  by (simp add: enter_widget_def Let_def timer_start_def split: option.splits)

lemma enter_widgets_append:
  "enter_widgets (xs @ ys) s = enter_widgets ys (enter_widgets xs s)"
  by (induction xs arbitrary: s) simp_all

lemma enter_last_tip:
  assumes "m_tips s wd = Some info" "\<forall>v\<in>set post. m_tips s v = None"
  shows "m_target (enter_widgets (pre @ wd # post) s) = \<lparr>widget = Some wd, tipInfo = info\<rparr>
       \<and> (\<exists>t. m_timer (enter_widgets (pre @ wd # post) s) = Some t \<and> running t)
       \<and> m_tipWindow (enter_widgets (pre @ wd # post) s) = m_tipWindow s"
proof -
  let ?s0 = "enter_widgets pre s"
  let ?s1 = "enter_widget wd ?s0"
  have tips0: "m_tips ?s0 = m_tips s" by (rule enter_widgets_tips)
  have tips1: "m_tips ?s1 = m_tips s" by (simp add: enter_widget_tips tips0)
  have "enter_widgets (pre @ wd # post) s = enter_widgets post ?s1"
    by (simp add: enter_widgets_append)
  also have "\<dots> = ?s1" using assms(2) by (intro enter_widgets_no_tips) (simp add: tips1)
  finally have eq: "enter_widgets (pre @ wd # post) s = ?s1" .
  have "m_tips ?s0 wd = Some info" using assms(1) by (simp add: tips0)
  from enter_widget_tip[OF this] show ?thesis
    by (simp add: eq enter_widget_window enter_widgets_window)
qed

text \<open>
  Claim C9, as the code has it. A mouse-enter message whose last recipient with a
  registered tip is \<open>wd\<close> makes \<open>wd\<close> and its tip the one target (there is a single
  target slot, no queue), leaves the timer running, and leaves the tip window as it was.
  At the next tick: when no popup was open (Pending), any popup opened carries the text
  of \<open>wd\<close>'s tip and \<open>wd\<close>'s bounds as its target; when a popup was open (Shown), that
  popup stays as it is and none is opened for \<open>wd\<close>.
\<close>

theorem hover_enter_last_wins:
  assumes "msg_type msg = kMouseEnterMessage" and "recipients msg = pre @ wd # post"
      and "m_tips s wd = Some info" and "\<forall>v\<in>set post. m_tips s v = None"
  shows "\<exists>s1. onProcessMessage base msg s = (False, s1)
       \<and> m_target s1 = \<lparr>widget = Some wd, tipInfo = info\<rparr>
       \<and> timer_running s1
       \<and> m_tipWindow s1 = m_tipWindow s
       \<and> (\<exists>s2. onTick env s1 = Inr s2 \<and>
            (case m_tipWindow s of
               None \<Rightarrow> (\<forall>tw. m_tipWindow s2 = Some tw \<longrightarrow>
                           tw_text tw = tip_text info \<and> tw_target tw = widget_bounds env wd)
             | Some old \<Rightarrow> m_tipWindow s2 = Some old))"
proof -
  let ?s1 = "enter_widgets (pre @ wd # post) s"
  have msg: "onProcessMessage base msg s = (False, ?s1)"
    using assms(1,2) by (simp add: onProcessMessage_def)
  from enter_last_tip[OF assms(3,4), of pre] obtain t where
    tgt: "m_target ?s1 = \<lparr>widget = Some wd, tipInfo = info\<rparr>"
    and t: "m_timer ?s1 = Some t" "running t"
    and win: "m_tipWindow ?s1 = m_tipWindow s" by blast
  have run: "timer_running ?s1" using t by (simp add: timer_running_def)
  have tick: "\<exists>s2. onTick env ?s1 = Inr s2 \<and>
            (case m_tipWindow s of
               None \<Rightarrow> (\<forall>tw. m_tipWindow s2 = Some tw \<longrightarrow>
                           tw_text tw = tip_text info \<and> tw_target tw = widget_bounds env wd)
             | Some old \<Rightarrow> m_tipWindow s2 = Some old)"
  proof (cases "m_tipWindow s")
    case None
    then have w1: "m_tipWindow ?s1 = None" by (simp add: win)
    have wd: "widget (m_target ?s1) = Some wd" by (simp add: tgt)
    from onTick_result[OF w1 wd t(1), of env] show ?thesis
      using None w1 by (elim disjE conjE exE) (simp_all add: tick_placed_fields tgt)
  next
    case (Some old)
    then have w1: "m_tipWindow ?s1 = Some old" by (simp add: win)
    from onTick_window[OF w1 t(1), of env] show ?thesis using Some w1 by simp
  qed
  from msg tgt run win tick show ?thesis by blast
qed

text \<open>
  Pending for widget 7, the mouse enters widget 8: the target is widget 8, and the popup
  of the next tick shows "Redo" below widget 8.
\<close>

theorem hover_enter_last_wins_witness:
  "msg_type example_enter_redo = kMouseEnterMessage
   \<and> recipients example_enter_redo = [] @ 8 # []
   \<and> m_tips example_pending 8 = Some example_redo_tip
   \<and> m_tipWindow example_pending = None
   \<and> onProcessMessage example_base example_enter_redo example_pending
       = (False, example_pending\<lparr>m_target := \<lparr>widget = Some 8, tipInfo = example_redo_tip\<rparr>\<rparr>)
   \<and> onTick (example_env example_target (60, 30))
        (example_pending\<lparr>m_target := \<lparr>widget = Some 8, tipInfo = example_redo_tip\<rparr>\<rparr>)
       = Inr (example_pending
            \<lparr>m_target := \<lparr>widget = Some 8, tipInfo = example_redo_tip\<rparr>,
             m_tipWindow := Some (example_popup ''Redo'' JI_TOP example_other_target
                                   \<lparr>rect_x = 195, rect_y = 120, rect_w = 60, rect_h = 30\<rparr>),
             m_timer := Some example_stopped\<rparr>)
   \<and> tw_text (example_popup ''Redo'' JI_TOP example_other_target
                \<lparr>rect_x = 195, rect_y = 120, rect_w = 60, rect_h = 30\<rparr>)
       = tip_text example_redo_tip"
proof -
  have h: "msg_type example_enter_redo = kMouseEnterMessage"
    "recipients example_enter_redo = [] @ 8 # []"
    "m_tips example_pending 8 = Some example_redo_tip"
    "\<forall>v\<in>set []. m_tips example_pending v = None"
    by (simp_all add: example_tooltip_defs)
  have n: "m_tipWindow example_pending = None" by (simp add: example_tooltip_defs)
  let ?env = "example_env example_target (60, 30)"
  let ?popup = "example_popup ''Redo'' JI_TOP example_other_target
                  \<lparr>rect_x = 195, rect_y = 120, rect_w = 60, rect_h = 30\<rparr>"
  from hover_enter_last_wins[OF h, of example_base ?env] n
  obtain s1 s2 where s1: "onProcessMessage example_base example_enter_redo example_pending
       = (False, s1)"
    and s2: "onTick ?env s1 = Inr s2"
    and popup_text: "\<forall>tw. m_tipWindow s2 = Some tw \<longrightarrow> tw_text tw = tip_text example_redo_tip
                \<and> tw_target tw = widget_bounds ?env 8"
    by auto
  from s1 have e1: "s1 = example_pending\<lparr>m_target := \<lparr>widget = Some 8, tipInfo = example_redo_tip\<rparr>\<rparr>"
    by (simp add: example_enter_pending)
  from s2 have "m_tipWindow s2 = Some ?popup"
    by (auto simp: e1 example_tick_redo)
  with popup_text have "tw_text ?popup = tip_text example_redo_tip" by blast
  with h n example_enter_pending example_tick_redo show ?thesis by simp
qed

text \<open>
  Shown for widget 7, the mouse enters widget 8: the target is widget 8, yet after the
  next tick the open popup is still the one of widget 7 with the text "Undo".
\<close>

theorem hover_enter_shown_keeps_old_popup:
  "state_of example_shown = Shown
   \<and> onProcessMessage example_base example_enter_redo example_shown
       = (False, example_shown\<lparr>m_target := \<lparr>widget = Some 8, tipInfo = example_redo_tip\<rparr>,
                              m_timer := Some example_running\<rparr>)
   \<and> onTick (example_env example_target (60, 30))
        (example_shown\<lparr>m_target := \<lparr>widget = Some 8, tipInfo = example_redo_tip\<rparr>,
                        m_timer := Some example_running\<rparr>)
       = Inr (example_shown\<lparr>m_target := \<lparr>widget = Some 8, tipInfo = example_redo_tip\<rparr>\<rparr>)
   \<and> m_tipWindow (example_shown\<lparr>m_target := \<lparr>widget = Some 8, tipInfo = example_redo_tip\<rparr>\<rparr>)
       = Some example_undo_popup
   \<and> tw_text example_undo_popup = ''Undo''
   \<and> tip_text example_redo_tip = ''Redo''"
  by (simp add: example_enter_shown example_tick_shown)
     (simp add: state_of_def example_shown_def example_pending_def example_undo_popup_def
        example_popup_def example_redo_tip_def)

subsection \<open>The timer\<close>

text \<open>
  Claim C10. With a timer and, when no tip window is open, a target widget (as after any
  hover-enter), \<open>onTick\<close> returns with the timer stopped on every path: when a window is
  already open, when the popup is placed, and when the placement gives up. A tick that
  the stopped timer would deliver does nothing, so one start of the timer leads to one
  pass of the handler.
\<close>

theorem onTick_stops_timer:
  assumes "m_timer s = Some t" and "m_tipWindow s = None \<longrightarrow> widget (m_target s) \<noteq> None"
  shows "\<exists>s'. onTick env s = Inr s' \<and> m_timer s' = Some (timer_stop t) \<and>
           \<not> timer_running s' \<and> fire_timer env s' = Inr s'"
proof -
  have "\<exists>s'. onTick env s = Inr s' \<and> m_timer s' = Some (timer_stop t)"
  proof (cases "m_tipWindow s")
    case None
    with assms(2) obtain wd where wd: "widget (m_target s) = Some wd" by auto
    from onTick_result[OF None wd assms(1), of env] show ?thesis
      by (elim disjE conjE exE) simp_all
  next
    case (Some tw)
    from onTick_window[OF Some assms(1), of env] show ?thesis by simp
  qed
  then obtain s' where "onTick env s = Inr s'" "m_timer s' = Some (timer_stop t)" by blast
  with stopped_timer_facts[OF this(2), of env] show ?thesis by blast
qed

text \<open>The three paths: the popup is placed, there is no room, a window is already open.\<close>

theorem onTick_stops_timer_witness:
  "m_timer example_pending = Some example_running
   \<and> widget (m_target example_pending) = Some 7
   \<and> onTick (example_env example_target (60, 30)) example_pending = Inr example_shown
   \<and> m_timer example_shown = Some example_stopped
   \<and> onTick (example_env example_whole_display (60, 30)) example_pending
       = Inr (example_pending\<lparr>m_timer := Some example_stopped\<rparr>)
   \<and> m_tipWindow (example_shown\<lparr>m_timer := Some example_running\<rparr>) = Some example_undo_popup
   \<and> onTick (example_env example_target (60, 30))
        (example_shown\<lparr>m_timer := Some example_running\<rparr>) = Inr example_shown
   \<and> \<not> timer_running example_shown
   \<and> fire_timer (example_env example_target (60, 30)) example_shown = Inr example_shown"
proof -
  let ?env = "example_env example_target (60, 30)"
  have h: "m_timer example_pending = Some example_running"
    "widget (m_target example_pending) = Some 7"
    "m_tipWindow example_pending = None \<longrightarrow> widget (m_target example_pending) \<noteq> None"
    "m_timer example_shown = Some example_stopped"
    "m_tipWindow (example_shown\<lparr>m_timer := Some example_running\<rparr>) = Some example_undo_popup"
    by (simp_all add: example_tooltip_defs)
  have ev: "onTick ?env (example_shown\<lparr>m_timer := Some example_running\<rparr>) = Inr example_shown"
    by (simp add: example_tooltip_defs tooltip_eval_defs)
  from onTick_stops_timer[OF h(1) h(3), of ?env]
  have "\<not> timer_running example_shown \<and> fire_timer ?env example_shown = Inr example_shown"
    by (simp add: example_tick_places)
  with h ev example_tick_places example_tick_no_room show ?thesis by simp
qed

end
